theory Spec2Isabelle
  imports Complex_Main
begin

section \<open>Tensors\<close>

text \<open>
  The kernel of \<^verbatim>\<open>tpu_decoding.py\<close> works on two-dimensional blocks. A block is a list of
  rows. Floating-point numbers are idealised as real numbers: the arithmetic below is exact,
  so nothing here speaks about rounding, overflow or underflow of \<^verbatim>\<open>float32\<close> and
  \<^verbatim>\<open>bfloat16\<close>. Positions and block indices are \<^verbatim>\<open>int32\<close> in the source. They are
  integers here; block indices and positions inside an array are far below the range of that
  type, and where the source computes with a position that the caller supplies (the true
  length, and the query position \<open>kv_seq_len - 1\<close>) the result wraps around as \<open>wrap32\<close> says.
\<close>

type_synonym vec = "real list"
type_synonym matrix = "real list list"

text \<open>The value of an \<^verbatim>\<open>int32\<close> result: two's complement, 32 bits.\<close>

definition wrap32 :: "int \<Rightarrow> int" where
  "wrap32 x = (x + 2 ^ 31) mod 2 ^ 32 - 2 ^ 31"

definition ncols :: "'a list list \<Rightarrow> nat" where
  "ncols a = (case a of [] \<Rightarrow> 0 | r # _ \<Rightarrow> length r)"

definition col :: "matrix \<Rightarrow> nat \<Rightarrow> vec" where
  "col a c = map (\<lambda>row. row ! c) a"

text \<open>\<^verbatim>\<open>v.T\<close>: the transposed block.\<close>

definition transpose_m :: "matrix \<Rightarrow> matrix" where
  "transpose_m a = map (col a) [0..<ncols a]"

text \<open>\<^verbatim>\<open>pl.dot(a, b)\<close>: the matrix product, entry \<open>(r, c)\<close> is the sum of \<open>a[r][d] * b[d][c]\<close>.\<close>

definition dot :: "matrix \<Rightarrow> matrix \<Rightarrow> matrix" where
  "dot a b = map (\<lambda>row. map (\<lambda>c. sum_list (map2 (*) row (col b c))) [0..<ncols b]) a"

text \<open>
  \<^verbatim>\<open>x.max(axis=-1)\<close> of one row. The reduction has no identity: a row of width zero does not
  occur (a key/value block has at least one column), and the function is left unspecified
  there.
\<close>

fun rowmax :: "'a::linorder list \<Rightarrow> 'a" where
  "rowmax (x # xs) = fold max xs x"

section \<open>The decoding kernel\<close>

text \<open>
  The three scalar-prefetch operands of the kernel: the true key/value length of every batch
  element, the table of block indices to visit, and the number of blocks to visit.
\<close>

record scalars =
  kv_seq_len_ref :: "int list"
  kv_block_offset :: "int list list"
  kv_block_offset_size :: "int list"

text \<open>
  The references the kernel writes: the scratch buffers \<open>m_i\<close>, \<open>l_i\<close> (shape
  \<open>(q_seq_head, 1)\<close>, one entry per query row) and \<open>o_scratch\<close> (shape
  \<open>(q_seq_head, head_dim)\<close>), and the output block \<open>o_ref\<close>. The field \<open>o_stores\<close> is not in
  the source: it counts the stores to \<open>o_ref\<close>, so that "written once" can be stated.
\<close>

record refs =
  m_i :: vec
  l_i :: vec
  o_scratch :: matrix
  o_ref :: matrix
  o_stores :: nat

text \<open>
  The mask function takes the query position and the key position. \<open>NEG_INF\<close> is a constant
  of \<^verbatim>\<open>axlearn.common.attention_bias\<close>, a module that is not part of the sources at hand: it
  is a parameter of every definition that uses it.
\<close>

type_synonym mask_fn = "int \<Rightarrow> int \<Rightarrow> bool"

definition init :: "real \<Rightarrow> refs \<Rightarrow> refs" where
  "init NEG_INF s =
     s\<lparr>m_i := map (\<lambda>_. NEG_INF) (m_i s),
       l_i := map (\<lambda>_. 0) (l_i s),
       o_scratch := map (map (\<lambda>_. 0)) (o_scratch s)\<rparr>"

text \<open>
  \<^verbatim>\<open>qk += b_ref[...]\<close> broadcasts a bias block with one row over all query rows; otherwise
  the bias block has one row for each query row.
\<close>

definition add_bias :: "matrix \<Rightarrow> matrix \<Rightarrow> matrix" where
  "add_bias qk b =
     map (\<lambda>(r, row). map2 (+) row (if length b = 1 then b ! 0 else b ! r)) (enumerate 0 qk)"

text \<open>
  \<open>kv_mask\<close> at column \<open>c\<close> of the block: the absolute key position
  \<open>kv_offset + c\<close> is below the true length, and the mask function, called with the query
  position \<open>kv_seq_len - 1\<close>, accepts it.
\<close>

definition kv_mask :: "mask_fn option \<Rightarrow> int \<Rightarrow> int \<Rightarrow> nat \<Rightarrow> bool" where
  "kv_mask mask_fn kv_offset kv_seq_len c =
     (let block_kv_index = kv_offset + int c
      in block_kv_index < kv_seq_len \<and>
         (case mask_fn of None \<Rightarrow> True
          | Some f \<Rightarrow> f (wrap32 (kv_seq_len - 1)) block_kv_index))"

text \<open>The logits of one block, as they stand after \<^verbatim>\<open>qk = jnp.where(kv_mask, qk, NEG_INF)\<close>.\<close>

definition logits ::
  "real \<Rightarrow> real \<Rightarrow> mask_fn option \<Rightarrow> int \<Rightarrow> int \<Rightarrow> matrix \<Rightarrow> matrix \<Rightarrow> matrix option \<Rightarrow> matrix"
where
  "logits NEG_INF softmax_scale mask_fn kv_offset kv_seq_len q k b =
     (let qk = dot q k;
          qk = (if softmax_scale \<noteq> 1 then map (map (\<lambda>x. x * softmax_scale)) qk else qk);
          qk = (case b of None \<Rightarrow> qk
                | Some bm \<Rightarrow> map (map (\<lambda>x. max x NEG_INF)) (add_bias qk bm))
      in map (\<lambda>row. map (\<lambda>(c, x). if kv_mask mask_fn kv_offset kv_seq_len c then x else NEG_INF)
                        (enumerate 0 row)) qk)"

text \<open>\<^verbatim>\<open>s_curr = jnp.exp(qk - m_next)\<close>.\<close>

definition s_curr :: "matrix \<Rightarrow> vec \<Rightarrow> matrix" where
  "s_curr qk m_next = map2 (\<lambda>row mn. map (\<lambda>x. exp (x - mn)) row) qk m_next"

text \<open>The accumulator update of \<^verbatim>\<open>compute\<close>, from the masked logits \<open>qk\<close> of the block on.\<close>

definition accumulate :: "matrix \<Rightarrow> matrix \<Rightarrow> refs \<Rightarrow> refs" where
  "accumulate qk v s =
     (let m_prev = m_i s;
          l_prev = l_i s;
          o_prev = o_scratch s;
          m_curr = map rowmax qk;
          m_next = map2 max m_prev m_curr;
          correction = map2 (\<lambda>mp mn. exp (mp - mn)) m_prev m_next;
          l_prev_corr = map2 (*) correction l_prev;
          sc = s_curr qk m_next;
          l_curr = map sum_list sc;
          l_next = map2 (+) l_prev_corr l_curr;
          o_prev_corr = map2 (\<lambda>c row. map (\<lambda>x. c * x) row) correction o_prev;
          o_curr = dot sc (transpose_m v);
          o_next = map2 (map2 (+)) o_prev_corr o_curr
      in s\<lparr>m_i := m_next, l_i := l_next, o_scratch := o_next\<rparr>)"

definition compute ::
  "real \<Rightarrow> real \<Rightarrow> mask_fn option \<Rightarrow> int \<Rightarrow> int \<Rightarrow> matrix \<Rightarrow> matrix \<Rightarrow> matrix \<Rightarrow>
   matrix option \<Rightarrow> refs \<Rightarrow> refs"
where
  "compute NEG_INF softmax_scale mask_fn kv_offset kv_seq_len q k v b s =
     accumulate (logits NEG_INF softmax_scale mask_fn kv_offset kv_seq_len q k b) v s"

text \<open>\<^verbatim>\<open>o_ref[...] = o_scratch[...] / l_i[...]\<close>: every row is divided by its normaliser.\<close>

definition normalize :: "matrix \<Rightarrow> vec \<Rightarrow> matrix" where
  "normalize o_acc l = map2 (\<lambda>row lr. map (\<lambda>x. x / lr) row) o_acc l"

definition final :: "refs \<Rightarrow> refs" where
  "final s = s\<lparr>o_ref := normalize (o_scratch s) (l_i s), o_stores := Suc (o_stores s)\<rparr>"

text \<open>
  One grid step of \<^verbatim>\<open>_tpu_decoding_kernel\<close>: \<open>batch_index\<close> is \<^verbatim>\<open>pl.program_id(0)\<close>,
  \<open>non_empty_kv_block_index\<close> is \<^verbatim>\<open>pl.program_id(2)\<close>, \<open>block_k\<close> is the width of the key
  block. The three \<^verbatim>\<open>pl.when\<close> bodies run in the order of the source.
\<close>

definition tpu_decoding_kernel ::
  "real \<Rightarrow> real \<Rightarrow> mask_fn option \<Rightarrow> nat \<Rightarrow> nat \<Rightarrow> scalars \<Rightarrow> matrix \<Rightarrow> matrix \<Rightarrow> matrix \<Rightarrow>
   matrix option \<Rightarrow> refs \<Rightarrow> refs"
where
  "tpu_decoding_kernel NEG_INF softmax_scale mask_fn batch_index non_empty_kv_block_index sc
       q_ref k_ref v_ref b_ref s =
     (let block_k = ncols k_ref;
          s1 = (if non_empty_kv_block_index = 0 then init NEG_INF s else s);
          kv_offset = kv_block_offset sc ! batch_index ! non_empty_kv_block_index * int block_k;
          kv_seq_len = kv_seq_len_ref sc ! batch_index;
          num_non_empty_kv_blocks = kv_block_offset_size sc ! batch_index;
          s2 = (if int non_empty_kv_block_index < num_non_empty_kv_blocks
                then compute NEG_INF softmax_scale mask_fn kv_offset kv_seq_len
                       q_ref k_ref v_ref b_ref s1
                else s1);
          s3 = (if int non_empty_kv_block_index = num_non_empty_kv_blocks - 1
                then final s2 else s2)
      in s3)"

text \<open>
  One lane: the grid steps \<open>0, 1, ..., steps - 1\<close> of the scan dimension for a fixed batch
  element and head, in increasing order. \<open>views j\<close> is what the block specifications hand to
  the kernel at step \<open>j\<close>: the key block, the value block and the bias block. The query block
  is the same at every step.
\<close>

definition grid_step ::
  "real \<Rightarrow> real \<Rightarrow> mask_fn option \<Rightarrow> nat \<Rightarrow> scalars \<Rightarrow> matrix \<Rightarrow>
   (nat \<Rightarrow> matrix \<times> matrix \<times> matrix option) \<Rightarrow> nat \<Rightarrow> refs \<Rightarrow> refs"
where
  "grid_step NEG_INF softmax_scale mask_fn batch_index sc q_ref views j s =
     (case views j of (k_ref, v_ref, b_ref) \<Rightarrow>
        tpu_decoding_kernel NEG_INF softmax_scale mask_fn batch_index j sc
          q_ref k_ref v_ref b_ref s)"

definition lane ::
  "real \<Rightarrow> real \<Rightarrow> mask_fn option \<Rightarrow> nat \<Rightarrow> scalars \<Rightarrow> matrix \<Rightarrow>
   (nat \<Rightarrow> matrix \<times> matrix \<times> matrix option) \<Rightarrow> nat \<Rightarrow> refs \<Rightarrow> refs"
where
  "lane NEG_INF softmax_scale mask_fn batch_index sc q_ref views steps s =
     fold (grid_step NEG_INF softmax_scale mask_fn batch_index sc q_ref views) [0..<steps] s"

section \<open>The driver\<close>

datatype error = ValueError | ZeroDivisionError | AssertionError | IndexError

subsection \<open>The support check\<close>

text \<open>
  \<^verbatim>\<open>kv_cache_type\<close> is \<^verbatim>\<open>Optional[type[BaseKVCache]]\<close>: no class, the class \<^verbatim>\<open>KVCache\<close>, or
  another class (named by a string here). \<^verbatim>\<open>kv_cache_type != KVCache\<close> compares classes.
\<close>

datatype cache_class = KVCache | Other_cache string

text \<open>
  \<^verbatim>\<open>TPUDecoding.is_supported\<close>. The method of the base class that \<^verbatim>\<open>super().is_supported\<close>
  calls is not part of the sources at hand: what it does (it raises, or it returns a
  truth value) is the parameter \<open>super_is_supported\<close>. \<open>k_seq_len\<close> is \<^verbatim>\<open>key.shape[1]\<close>.
  \<^verbatim>\<open>%\<close> raises on a zero divisor.
\<close>

definition is_supported :: "nat \<Rightarrow> error + bool \<Rightarrow> cache_class option \<Rightarrow> nat \<Rightarrow> error + bool" where
  "is_supported tpu_block_size super_is_supported kv_cache_type k_seq_len =
     (case super_is_supported of
        Inl e \<Rightarrow> Inl e
      | Inr ok \<Rightarrow>
          if \<not> ok then Inr False
          else if kv_cache_type \<noteq> Some KVCache then Inr False
          else if tpu_block_size = 0 then Inl ZeroDivisionError
          else if k_seq_len mod tpu_block_size \<noteq> 0 \<and> k_seq_len > tpu_block_size
               then Inr False
          else Inr True)"

subsection \<open>The block offset table\<close>

text \<open>\<^verbatim>\<open>pl.cdiv\<close> on sizes.\<close>

definition cdiv :: "nat \<Rightarrow> nat \<Rightarrow> nat" where
  "cdiv a b = (a + b - 1) div b"

text \<open>
  Modelled from the spec: \<^verbatim>\<open>build_mask\<close> of \<^verbatim>\<open>axlearn.common.flash_attention.common\<close>, a
  module that is not part of the sources at hand. The spec (4.1) has the builder find, for
  every query-block row, the key blocks "where at least one (q,k) pair within the block pair
  is unmasked": entry \<open>(i, j)\<close> of the block map says that block pair \<open>(i, j)\<close> holds such a
  pair.
\<close>

definition build_mask :: "mask_fn \<Rightarrow> nat \<Rightarrow> nat \<Rightarrow> nat \<Rightarrow> nat \<Rightarrow> bool list list" where
  "build_mask f q_seq_len kv_seq_len block_q block_k =
     map (\<lambda>i. map (\<lambda>j.
            list_ex (\<lambda>q. list_ex (\<lambda>k. f (int q) (int k))
                              [j * block_k ..< min ((j + 1) * block_k) kv_seq_len])
                    [i * block_q ..< min ((i + 1) * block_q) q_seq_len])
          [0 ..< cdiv kv_seq_len block_k])
       [0 ..< cdiv q_seq_len block_q]"

text \<open>
  Modelled from the spec: \<^verbatim>\<open>query_iterator_indices\<close> of the same module. The spec (3, 4.1)
  has every row of the table hold "the sorted list" of the key-block indices that are not
  fully masked, where "entries beyond the valid count are filled with a sentinel". The second
  component is the number of such blocks of every row.
\<close>

definition query_iterator_indices :: "bool list list \<Rightarrow> int \<Rightarrow> int list list \<times> int list" where
  "query_iterator_indices block_mask_map padding =
     (map (\<lambda>row. let idx = map int (filter (\<lambda>j. row ! j) [0 ..< length row])
                  in idx @ replicate (length row - length idx) padding) block_mask_map,
      map (\<lambda>row. int (length (filter (\<lambda>j. row ! j) [0 ..< length row]))) block_mask_map)"

text \<open>
  The table \<^verbatim>\<open>offset\<close> of \<^verbatim>\<open>__call__\<close>. \<open>bool_mask\<close> is the block map when there is a mask
  function (from \<^verbatim>\<open>build_sliding_window_mask\<close> or from \<^verbatim>\<open>build_mask\<close>); without a mask
  function every row counts all key blocks up.
\<close>

definition offset_table :: "bool list list option \<Rightarrow> nat \<Rightarrow> nat \<Rightarrow> int list list" where
  "offset_table bool_mask padded_kv_seq_len block_size =
     (case bool_mask of
        Some bm \<Rightarrow> fst (query_iterator_indices bm (- 1))
      | None \<Rightarrow>
          (let padded_num_kv_blocks = cdiv padded_kv_seq_len block_size
           in replicate padded_num_kv_blocks (map int [0 ..< padded_num_kv_blocks])))"

text \<open>
  \<^verbatim>\<open>offset[i]\<close> with a traced index, as JAX reads it: a negative index counts from the end,
  and an index outside the array is clamped to it.
\<close>

definition take_row :: "'a list \<Rightarrow> int \<Rightarrow> 'a" where
  "take_row xs i =
     (let n = int (length xs); i' = (if i < 0 then i + n else i)
      in xs ! nat (max 0 (min (n - 1) i')))"

text \<open>
  The three scalar-prefetch operands, as \<^verbatim>\<open>__call__\<close> derives them from the table
  \<^verbatim>\<open>offset\<close>, the block size and the true lengths: the row of the query position
  \<open>kv_seq_len - 1\<close>, the count of its entries that are no padding and start below the true
  length, and the row with its padding replaced by the maximum of the row.
\<close>

definition block_tables :: "int list list \<Rightarrow> nat \<Rightarrow> int list \<Rightarrow> scalars" where
  "block_tables offset block_size kv_seq_len =
     (let padding = - 1;
          rows = map (\<lambda>l. take_row offset (wrap32 (l - 1) div int block_size)) kv_seq_len;
          sizes = map2 (\<lambda>row l.
                    int (length (filter (\<lambda>e. e \<noteq> padding \<and> e * int block_size < l) row)))
                    rows kv_seq_len;
          rows' = map (\<lambda>row. map (\<lambda>e. if e = padding then rowmax row else e) row) rows
      in \<lparr>kv_seq_len_ref = kv_seq_len, kv_block_offset = rows', kv_block_offset_size = sizes\<rparr>)"

subsection \<open>The forward pass\<close>

text \<open>
  The mask component that \<^verbatim>\<open>split(bias, MaskFnAttentionBias)\<close> returns: its mask function,
  its target positions (one row for each batch element), and the window size when it is a
  \<^verbatim>\<open>SlidingWindowAttentionBias\<close>.
\<close>

record mask_bias =
  mask_of :: "mask_fn option"
  target_positions :: "int list list option"
  sliding_window_size :: "int option"

text \<open>
  The value of the explicit bias: one block row shared by all batch elements and heads
  (shape \<open>(1, 1, q_seq_len, padded_kv_seq_len)\<close>), or one matrix for each batch element and
  head.
\<close>

datatype explicit_bias = Shared_bias matrix | Lane_bias "nat \<Rightarrow> nat \<Rightarrow> matrix"

text \<open>
  The input batch, in the layout the kernel reads: for batch element \<open>b\<close> and key/value head
  \<open>h\<close>, \<open>b_query b h\<close> has shape \<open>(q_seq_head, head_dim)\<close>, \<open>b_key b h\<close> and \<open>b_value b h\<close> have
  shape \<open>(head_dim, padded_kv_seq_len)\<close>. \<open>bias_mask\<close> and \<open>bias_explicit\<close> are the two parts
  that \<^verbatim>\<open>split\<close> returns for \<^verbatim>\<open>input_batch["bias"]\<close>.
\<close>

record input_batch =
  batch_size :: nat
  kv_heads :: nat
  q_seq_head :: nat
  head_dim :: nat
  padded_kv_seq_len :: nat
  b_query :: "nat \<Rightarrow> nat \<Rightarrow> matrix"
  b_key :: "nat \<Rightarrow> nat \<Rightarrow> matrix"
  b_value :: "nat \<Rightarrow> nat \<Rightarrow> matrix"
  bias_mask :: "mask_bias option"
  bias_explicit :: "explicit_bias option"
  logit_sink :: "vec option"

record config =
  cfg_tpu_block_size :: nat
  cfg_softmax_scale :: real

text \<open>
  \<^verbatim>\<open>mask.target_positions[:, -1] + 1\<close>: a row without entries has no last one; the sum is
  an \<^verbatim>\<open>int32\<close> and wraps around.
\<close>

definition last_plus_one :: "int list list \<Rightarrow> error + int list" where
  "last_plus_one tp =
     (if list_ex (\<lambda>row. row = []) tp then Inl IndexError
      else Inr (map (\<lambda>row. wrap32 (last row + 1)) tp))"

text \<open>\<^verbatim>\<open>jnp.broadcast_to(x, (bs,))\<close> for a vector \<open>x\<close>.\<close>

definition broadcast_to :: "int list \<Rightarrow> nat \<Rightarrow> error + int list" where
  "broadcast_to xs bs =
     (if length xs = bs then Inr xs
      else if length xs = 1 then Inr (replicate bs (xs ! 0))
      else Inl ValueError)"

text \<open>
  What is in memory before the call, and around the arrays: \<open>buffers b h\<close> holds the contents
  of the scratch buffers and of the output block of lane \<open>(b, h)\<close> (the source does not
  initialise them), and \<open>outside a d p\<close> is what a read of row \<open>d\<close> of the array \<open>a\<close> delivers
  at a position \<open>p\<close> that is not inside the array (the source does not define it).
\<close>

record memory =
  buffers :: "nat \<Rightarrow> nat \<Rightarrow> refs"
  outside :: "matrix \<Rightarrow> nat \<Rightarrow> int \<Rightarrow> real"

text \<open>
  The block with index \<open>idx\<close> along the last dimension, \<open>block\<close> columns wide: column \<open>c\<close> of
  the block is position \<open>idx * block + c\<close> of the array.
\<close>

definition block_view :: "memory \<Rightarrow> matrix \<Rightarrow> int \<Rightarrow> nat \<Rightarrow> matrix" where
  "block_view mem a idx block =
     map (\<lambda>(d, row).
            map (\<lambda>c. let p = idx * int block + int c
                      in if 0 \<le> p \<and> p < int (length row) then row ! nat p
                         else outside mem a d p)
              [0 ..< block])
       (enumerate 0 a)"

text \<open>
  The explicit bias of lane \<open>(b, h)\<close>: \<^verbatim>\<open>bias_index_map\<close> reads the one shared matrix for every
  lane, \<^verbatim>\<open>kv_index_map\<close> the matrix of the lane.
\<close>

definition lane_bias :: "input_batch \<Rightarrow> nat \<Rightarrow> nat \<Rightarrow> matrix option" where
  "lane_bias ib b h =
     (case bias_explicit ib of
        None \<Rightarrow> None
      | Some (Shared_bias bm) \<Rightarrow> Some bm
      | Some (Lane_bias bf) \<Rightarrow> Some (bf b h))"

text \<open>
  What the block specifications hand to the kernel at grid step \<open>(b, h, j)\<close>:
  \<^verbatim>\<open>kv_index_map\<close> and \<^verbatim>\<open>bias_index_map\<close> pick the block \<open>kv_block_offset[b, j]\<close> of the key,
  the value and the bias.
\<close>

definition kv_views ::
  "memory \<Rightarrow> input_batch \<Rightarrow> scalars \<Rightarrow> nat \<Rightarrow> nat \<Rightarrow> nat \<Rightarrow> nat \<Rightarrow> matrix \<times> matrix \<times> matrix option"
where
  "kv_views mem ib sc block_kv b h j =
     (let idx = kv_block_offset sc ! b ! j
      in (block_view mem (b_key ib b h) idx block_kv,
          block_view mem (b_value ib b h) idx block_kv,
          map_option (\<lambda>bm. block_view mem bm idx block_kv) (lane_bias ib b h)))"

text \<open>
  \<^verbatim>\<open>block_size = min(self.cfg.tpu_block_size, key.shape[1])\<close>: the block size of the
  forward pass is reduced to the key length when that is shorter than one block.
\<close>

definition kv_block_size :: "nat \<Rightarrow> nat \<Rightarrow> nat" where
  "kv_block_size tpu_block_size k_seq_len = min tpu_block_size k_seq_len"

text \<open>
  The block map of \<^verbatim>\<open>__call__\<close>: none without a mask function; for a
  \<^verbatim>\<open>SlidingWindowAttentionBias\<close> what \<^verbatim>\<open>build_sliding_window_mask\<close> returns, and
  otherwise what \<^verbatim>\<open>build_mask\<close> returns, both for query and key length
  \<open>padded_kv_seq_len\<close>. The function \<^verbatim>\<open>build_sliding_window_mask\<close> is not part of the
  sources at hand, and the spec gives no formula for it: it is the parameter \<open>sw_mask\<close>.
\<close>

definition block_map ::
  "(nat \<Rightarrow> nat \<Rightarrow> nat \<Rightarrow> nat \<Rightarrow> int \<Rightarrow> bool list list) \<Rightarrow> mask_bias \<Rightarrow> nat \<Rightarrow> nat \<Rightarrow>
   bool list list option"
where
  "block_map sw_mask mask_b padded block_size =
     (case mask_of mask_b of
        None \<Rightarrow> None
      | Some f \<Rightarrow>
          (case sliding_window_size mask_b of
             Some w \<Rightarrow> Some (sw_mask padded padded block_size block_size w)
           | None \<Rightarrow> Some (build_mask f padded padded block_size block_size)))"

text \<open>
  \<^verbatim>\<open>pl.pallas_call\<close> with the grid \<open>(bs, kv_heads, max(kv_block_offset_size))\<close>: every lane
  runs its scan steps in order, from the buffers that memory holds for it. The result is the
  output block of every lane.
\<close>

definition pallas_call ::
  "real \<Rightarrow> real \<Rightarrow> mask_fn option \<Rightarrow> memory \<Rightarrow> input_batch \<Rightarrow> nat \<Rightarrow> scalars \<Rightarrow> matrix list list"
where
  "pallas_call NEG_INF softmax_scale mask_fn mem ib block_kv sc =
     (let steps = nat (rowmax (kv_block_offset_size sc))
      in map (\<lambda>b. map (\<lambda>h.
             o_ref (lane NEG_INF softmax_scale mask_fn b sc (b_query ib b h)
                      (kv_views mem ib sc block_kv b h) steps (buffers mem b h)))
           [0 ..< kv_heads ib]) [0 ..< batch_size ib])"

text \<open>
  \<^verbatim>\<open>TPUDecoding.__call__\<close>, with \<open>NEG_INF\<close>, \<open>sw_mask\<close> and \<open>mem\<close> as above. The result is
  the output, or the first exception: \<open>ValueError\<close> without a mask component or target
  positions, the errors of indexing and broadcasting the positions, the division by a block
  size of zero (\<^verbatim>\<open>pl.cdiv\<close>), the division by zero of \<^verbatim>\<open>q.reshape(bs, kv_heads, -1, head_dim)\<close>
  for an array without elements, and the failed assertion \<^verbatim>\<open>q_seq_head <= 512\<close>. Apart from
  that, the reshapes of query, key and value are layout only: the batch already is in the
  layout of the kernel.
\<close>

definition call ::
  "real \<Rightarrow> config \<Rightarrow> (nat \<Rightarrow> nat \<Rightarrow> nat \<Rightarrow> nat \<Rightarrow> int \<Rightarrow> bool list list) \<Rightarrow> memory \<Rightarrow>
   input_batch \<Rightarrow> error + matrix list list"
where
  "call NEG_INF cfg sw_mask mem ib =
     (case bias_mask ib of
        None \<Rightarrow> Inl ValueError
      | Some mask_b \<Rightarrow>
     (case target_positions mask_b of
        None \<Rightarrow> Inl ValueError
      | Some tp \<Rightarrow>
     (case last_plus_one tp of
        Inl e \<Rightarrow> Inl e
      | Inr kv_seq_len \<Rightarrow>
     (let block_size = kv_block_size (cfg_tpu_block_size cfg) (padded_kv_seq_len ib)
      in case broadcast_to kv_seq_len (batch_size ib) of
        Inl e \<Rightarrow> Inl e
      | Inr kv_seq_len \<Rightarrow>
          if block_size = 0 then Inl ZeroDivisionError
          else
            (let bool_mask = block_map sw_mask mask_b (padded_kv_seq_len ib) block_size;
                 offset = offset_table bool_mask (padded_kv_seq_len ib) block_size;
                 sc = block_tables offset block_size kv_seq_len
             in if batch_size ib * kv_heads ib * head_dim ib = 0 then Inl ZeroDivisionError
                else if \<not> q_seq_head ib \<le> 512 then Inl AssertionError
                else Inr (pallas_call NEG_INF (cfg_softmax_scale cfg) (mask_of mask_b) mem ib
                            block_size sc))))))"

section \<open>Shapes, and what a lane has visited\<close>

definition is_matrix :: "nat \<Rightarrow> nat \<Rightarrow> 'a list list \<Rightarrow> bool" where
  "is_matrix r c a = (length a = r \<and> list_all (\<lambda>row. length row = c) a)"

definition refs_shaped :: "nat \<Rightarrow> nat \<Rightarrow> refs \<Rightarrow> bool" where
  "refs_shaped R D s = (length (m_i s) = R \<and> length (l_i s) = R \<and> is_matrix R D (o_scratch s))"

text \<open>
  The blocks of the first \<open>t\<close> grid steps have the shapes of the block specifications: key and
  value blocks \<open>(head_dim, block_k)\<close>, a bias block with one row or with one row for each query
  row.
\<close>

definition bias_shaped :: "nat \<Rightarrow> nat \<Rightarrow> matrix option \<Rightarrow> bool" where
  "bias_shaped R B b = (case b of None \<Rightarrow> True | Some bm \<Rightarrow> is_matrix R B bm \<or> is_matrix 1 B bm)"

definition views_shaped ::
  "nat \<Rightarrow> nat \<Rightarrow> nat \<Rightarrow> (nat \<Rightarrow> matrix \<times> matrix \<times> matrix option) \<Rightarrow> nat \<Rightarrow> bool"
where
  "views_shaped R D B views t =
     list_all (\<lambda>j. case views j of (k, v, b) \<Rightarrow>
                 is_matrix D B k \<and> is_matrix D B v \<and> bias_shaped R B b) [0 ..< t]"

text \<open>The masked logits the kernel computes at grid step \<open>j\<close> of a lane.\<close>

definition step_logits ::
  "real \<Rightarrow> real \<Rightarrow> mask_fn option \<Rightarrow> nat \<Rightarrow> scalars \<Rightarrow> matrix \<Rightarrow>
   (nat \<Rightarrow> matrix \<times> matrix \<times> matrix option) \<Rightarrow> nat \<Rightarrow> matrix"
where
  "step_logits NEG_INF softmax_scale mask_fn batch_index sc q_ref views j =
     (case views j of (k_ref, v_ref, b_ref) \<Rightarrow>
        logits NEG_INF softmax_scale mask_fn
          (kv_block_offset sc ! batch_index ! j * int (ncols k_ref))
          (kv_seq_len_ref sc ! batch_index) q_ref k_ref b_ref)"

text \<open>
  Row \<open>r\<close> of the logits of the blocks visited in the first \<open>t\<close> steps, one block after the
  other, and row \<open>d\<close> of their value blocks.
\<close>

definition visited_logits ::
  "real \<Rightarrow> real \<Rightarrow> mask_fn option \<Rightarrow> nat \<Rightarrow> scalars \<Rightarrow> matrix \<Rightarrow>
   (nat \<Rightarrow> matrix \<times> matrix \<times> matrix option) \<Rightarrow> nat \<Rightarrow> nat \<Rightarrow> vec"
where
  "visited_logits NEG_INF softmax_scale mask_fn batch_index sc q_ref views t r =
     concat (map (\<lambda>j. step_logits NEG_INF softmax_scale mask_fn batch_index sc q_ref views j ! r)
               [0 ..< t])"

definition visited_values :: "(nat \<Rightarrow> matrix \<times> matrix \<times> matrix option) \<Rightarrow> nat \<Rightarrow> nat \<Rightarrow> vec" where
  "visited_values views t d = concat (map (\<lambda>j. fst (snd (views j)) ! d) [0 ..< t])"

text \<open>
  The softmax of a row of logits, and the softmax-weighted average of the values that go
  with them.
\<close>

definition softmax :: "vec \<Rightarrow> vec" where
  "softmax xs = map (\<lambda>x. exp x / sum_list (map exp xs)) xs"

definition softmax_avg :: "vec \<Rightarrow> vec \<Rightarrow> real" where
  "softmax_avg xs vs = sum_list (map2 (*) (softmax xs) vs)"

text \<open>
  The accumulators hold the unnormalised sums over the logits \<open>X r\<close> and the values \<open>V d\<close>,
  relative to the running maximum.
\<close>

definition acc_inv :: "nat \<Rightarrow> nat \<Rightarrow> refs \<Rightarrow> (nat \<Rightarrow> vec) \<Rightarrow> (nat \<Rightarrow> vec) \<Rightarrow> bool" where
  "acc_inv R D s X V =
     (refs_shaped R D s
      \<and> (\<forall>r<R. \<forall>d<D. length (X r) = length (V d))
      \<and> (\<forall>r<R. l_i s ! r = (\<Sum>x\<leftarrow>X r. exp (x - m_i s ! r)))
      \<and> (\<forall>r<R. \<forall>d<D. o_scratch s ! r ! d =
            sum_list (map2 (\<lambda>x y. exp (x - m_i s ! r) * y) (X r) (V d))))"

text \<open>
  The block map has at least one row and \<open>W\<close> columns; without a mask function, the number
  \<open>W\<close> of key blocks is positive.
\<close>

definition block_map_shaped :: "bool list list option \<Rightarrow> nat \<Rightarrow> bool" where
  "block_map_shaped bool_mask W =
     (case bool_mask of
        Some bm \<Rightarrow> bm \<noteq> [] \<and> list_all (\<lambda>row. length row = W) bm
      | None \<Rightarrow> 0 < W)"

section \<open>The reference attention with a logit sink\<close>

text \<open>
  Modelled from the spec: the reference attention with a logit sink, of a module that is not
  part of the sources at hand. The spec (6, P7) has the sink "added to the softmax
  denominator only, not to any key position": for the logits \<open>xs\<close> of a query row and the
  values \<open>vs\<close> of the keys, the weighted sum of the values is divided by the sum of
  \<open>exp\<close> of the logits plus \<open>exp\<close> of the sink.
\<close>

definition sink_attention :: "vec \<Rightarrow> vec \<Rightarrow> real \<Rightarrow> real" where
  "sink_attention xs vs sink =
     sum_list (map2 (\<lambda>x y. exp x * y) xs vs) / (sum_list (map exp xs) + exp sink)"

text \<open>
  Modelled from the spec: the dense reference (P1) with the sink, for one batch element and
  head: the masked, scaled logits over the full unblocked key sequence, and for every query
  row and value row the attention above.
\<close>

definition reference_with_sink ::
  "real \<Rightarrow> real \<Rightarrow> mask_fn option \<Rightarrow> int \<Rightarrow> matrix \<Rightarrow> matrix \<Rightarrow> matrix \<Rightarrow> real \<Rightarrow> matrix"
where
  "reference_with_sink NEG_INF softmax_scale mask_fn kv_seq_len q k v sink =
     map (\<lambda>row. map (\<lambda>vd. sink_attention row vd sink) v)
       (logits NEG_INF softmax_scale mask_fn 0 kv_seq_len q k None)"

section \<open>The dense reference attention\<close>



section \<open>Example inputs\<close>

text \<open>
  Buffers of a lane with one query row and head dimension one, with contents left over from
  before the call: the output block holds \<open>7\<close>.
\<close>

definition ex_refs :: refs where
  "ex_refs = \<lparr>m_i = [0], l_i = [0], o_scratch = [[0]], o_ref = [[7]], o_stores = 0\<rparr>"

text \<open>A large negative number for \<open>NEG_INF\<close>.\<close>

definition ex_NEG_INF :: real where
  "ex_NEG_INF = - (10 ^ 15)"

text \<open>A mask function that hides the keys at positions 0 and 1.\<close>

definition ex_mask :: mask_fn where
  "ex_mask q k = (k \<ge> 2)"

text \<open>
  The scalars the driver derives for it with four key positions, block size two and a batch
  of two elements with true lengths 1 and 3.
\<close>

definition ex_sc0 :: scalars where
  "ex_sc0 = block_tables (offset_table (Some (build_mask ex_mask 4 4 2 2)) 4 2) 2 [1, 3]"

text \<open>The scalars for no mask function, two key positions, block size two, true length 2.\<close>

definition ex_sc1 :: scalars where
  "ex_sc1 = block_tables (offset_table None 2 2) 2 [2]"

text \<open>The same key block and value block at every step, and no bias.\<close>

definition ex_views :: "nat \<Rightarrow> matrix \<times> matrix \<times> matrix option" where
  "ex_views j = ([[1, 1]], [[1, 2]], None)"

text \<open>
  \<^verbatim>\<open>jax_fn_mask\<close> of \<^verbatim>\<open>tpu_attention_test.py\<close>, the sliding-window causal mask:
  \<^verbatim>\<open>and_masks(causal_mask, mask)\<close>, where \<^verbatim>\<open>causal_mask\<close> accepts the keys at or before the
  query position and \<^verbatim>\<open>mask\<close> those at most \<open>window_size\<close> positions before it.
\<close>

definition jax_fn_mask :: "int \<Rightarrow> mask_fn" where
  "jax_fn_mask window_size query_position key_position =
     (query_position \<ge> key_position \<and> query_position - key_position \<le> window_size)"


text \<open>A key block and a value block four positions wide, the same at every step.\<close>

definition ex_views4 :: "nat \<Rightarrow> matrix \<times> matrix \<times> matrix option" where
  "ex_views4 j = ([[1, 1, 1, 1]], [[1, 2, 3, 4]], None)"

text \<open>A causal mask function that hides the keys at positions 0 and 1.\<close>

definition ex_prefix_mask :: mask_fn where
  "ex_prefix_mask q k = (q \<ge> k \<and> k \<ge> 2)"

text \<open>
  The scalars the driver derives for it with four key positions, block size two and a batch
  of two elements with true lengths 1 and 3.
\<close>

definition ex_sc2 :: scalars where
  "ex_sc2 = block_tables (offset_table (Some (build_mask ex_prefix_mask 4 4 2 2)) 4 2) 2 [1, 3]"

text \<open>
  The block map for the sliding-window causal mask with a window of one position, eight key
  positions and block size four.
\<close>

definition ex_sc4_mask :: "bool list list option" where
  "ex_sc4_mask = Some (build_mask (jax_fn_mask 1) 8 8 4 4)"

text \<open>Memory that holds \<open>ex_refs\<close> for every lane, and 0 around the arrays.\<close>

definition ex_mem :: memory where
  "ex_mem = \<lparr>buffers = (\<lambda>b h. ex_refs), outside = (\<lambda>a d p. 0)\<rparr>"

text \<open>
  A batch of one element with one head, one query row, head dimension one and two keys, both
  within the true length, with a logit sink of 0 for the head; block size 128.
\<close>

definition ex_cfg :: config where
  "ex_cfg = \<lparr>cfg_tpu_block_size = 128, cfg_softmax_scale = 1\<rparr>"

definition ex_batch :: input_batch where
  "ex_batch =
     \<lparr>batch_size = 1, kv_heads = 1, q_seq_head = 1, head_dim = 1, padded_kv_seq_len = 2,
      b_query = (\<lambda>b h. [[1]]), b_key = (\<lambda>b h. [[0, 0]]), b_value = (\<lambda>b h. [[1, 3]]),
      bias_mask = Some \<lparr>mask_of = None, target_positions = Some [[0, 1]],
                         sliding_window_size = None\<rparr>,
      bias_explicit = None, logit_sink = Some [0]\<rparr>"

text \<open>A stand-in for \<^verbatim>\<open>build_sliding_window_mask\<close> where no sliding window is used.\<close>

definition ex_sw :: "nat \<Rightarrow> nat \<Rightarrow> nat \<Rightarrow> nat \<Rightarrow> int \<Rightarrow> bool list list" where
  "ex_sw q_seq_len kv_seq_len block_q block_k w = []"

text \<open>
  A lane of two blocks without a mask function: four key positions, block size two, true
  length 4; the keys make the logits 0 in the first block and 1 in the second.
\<close>

definition ex_sc5 :: scalars where
  "ex_sc5 = block_tables (offset_table None 4 2) 2 [4]"

definition ex_views5 :: "nat \<Rightarrow> matrix \<times> matrix \<times> matrix option" where
  "ex_views5 j = (if j = 0 then ([[0, 0]], [[1, 2]], None) else ([[1, 1]], [[3, 5]], None))"

text \<open>Buffers with contents left over from an earlier lane.\<close>

definition ex_refs5 :: refs where
  "ex_refs5 = \<lparr>m_i = [5], l_i = [3], o_scratch = [[9]], o_ref = [[7]], o_stores = 0\<rparr>"

text \<open>Accumulators in the middle of a scan: maximum 0, normaliser 2, weighted sum 3.\<close>

definition ex_refs6 :: refs where
  "ex_refs6 = \<lparr>m_i = [0], l_i = [2], o_scratch = [[3]], o_ref = [[7]], o_stores = 0\<rparr>"


definition ex_batch2 :: input_batch where
  "ex_batch2 =
     \<lparr>batch_size = 2, kv_heads = 1, q_seq_head = 1, head_dim = 1, padded_kv_seq_len = 4,
      b_query = (\<lambda>b h. [[1]]), b_key = (\<lambda>b h. [[0, 0, 0, 0]]),
      b_value = (\<lambda>b h. [[1, 1, 1, 1]]),
      bias_mask = Some \<lparr>mask_of = Some ex_prefix_mask, target_positions = Some [[0], [2]],
                         sliding_window_size = None\<rparr>,
      bias_explicit = None, logit_sink = None\<rparr>"


section \<open>The lane as a state machine\<close>

lemma lane_0:
  "lane NEG_INF softmax_scale mask_fn batch_index sc q_ref views 0 s = s"
  by (simp add: lane_def)

lemma lane_Suc:
  "lane NEG_INF softmax_scale mask_fn batch_index sc q_ref views (Suc t) s =
     grid_step NEG_INF softmax_scale mask_fn batch_index sc q_ref views t
       (lane NEG_INF softmax_scale mask_fn batch_index sc q_ref views t s)"
  by (simp add: lane_def)

lemma accumulate_output [simp]:
  "o_ref (accumulate qk v s) = o_ref s" "o_stores (accumulate qk v s) = o_stores s"
  by (simp_all add: accumulate_def Let_def)

lemma init_output [simp]:
  "o_ref (init NEG_INF s) = o_ref s" "o_stores (init NEG_INF s) = o_stores s"
  by (simp_all add: init_def)

lemma kernel_no_blocks:
  assumes "kv_block_offset_size sc ! batch_index = 0"
  shows "o_ref (tpu_decoding_kernel NEG_INF softmax_scale mask_fn batch_index j sc
                  q_ref k_ref v_ref b_ref s) = o_ref s
       \<and> o_stores (tpu_decoding_kernel NEG_INF softmax_scale mask_fn batch_index j sc
                  q_ref k_ref v_ref b_ref s) = o_stores s"
  using assms by (simp add: tpu_decoding_kernel_def Let_def)

lemma grid_step_no_blocks:
  assumes "kv_block_offset_size sc ! batch_index = 0"
  shows "o_ref (grid_step NEG_INF softmax_scale mask_fn batch_index sc q_ref views j s) = o_ref s
       \<and> o_stores (grid_step NEG_INF softmax_scale mask_fn batch_index sc q_ref views j s)
           = o_stores s"
  using kernel_no_blocks [OF assms] by (simp add: grid_step_def split: prod.splits)

lemma lane_no_blocks:
  assumes "kv_block_offset_size sc ! batch_index = 0"
  shows "o_ref (lane NEG_INF softmax_scale mask_fn batch_index sc q_ref views steps s) = o_ref s
       \<and> o_stores (lane NEG_INF softmax_scale mask_fn batch_index sc q_ref views steps s)
           = o_stores s"
proof (induction steps)
  case 0
  show ?case by (simp add: lane_0)
next
  case (Suc t)
  show ?case
    using Suc grid_step_no_blocks [OF assms] by (simp add: lane_Suc)
qed

lemma final_accumulators [simp]:
  "m_i (final s) = m_i s" "l_i (final s) = l_i s" "o_scratch (final s) = o_scratch s"
  by (simp_all add: final_def)

lemma kernel_after_last:
  assumes "1 \<le> kv_block_offset_size sc ! batch_index"
    and "kv_block_offset_size sc ! batch_index \<le> int j"
  shows "tpu_decoding_kernel NEG_INF softmax_scale mask_fn batch_index j sc
           q_ref k_ref v_ref b_ref s = s"
  using assms by (simp add: tpu_decoding_kernel_def Let_def)

lemma grid_step_after_last:
  assumes "1 \<le> kv_block_offset_size sc ! batch_index"
    and "kv_block_offset_size sc ! batch_index \<le> int j"
  shows "grid_step NEG_INF softmax_scale mask_fn batch_index sc q_ref views j s = s"
  using kernel_after_last [OF assms] by (simp add: grid_step_def split: prod.splits)

lemma lane_after_last:
  assumes "1 \<le> kv_block_offset_size sc ! batch_index"
    and "kv_block_offset_size sc ! batch_index \<le> int t"
  shows "lane NEG_INF softmax_scale mask_fn batch_index sc q_ref views t s =
         lane NEG_INF softmax_scale mask_fn batch_index sc q_ref views
           (nat (kv_block_offset_size sc ! batch_index)) s"
  using assms(2)
proof (induction t)
  case 0
  with assms(1) show ?case by simp
next
  case (Suc t)
  show ?case
  proof (cases "kv_block_offset_size sc ! batch_index \<le> int t")
    case True
    then show ?thesis
      using Suc.IH grid_step_after_last [OF assms(1) True] by (simp add: lane_Suc)
  next
    case False
    with Suc.prems have "nat (kv_block_offset_size sc ! batch_index) = Suc t" by linarith
    then show ?thesis by simp
  qed
qed

lemma kernel_stores:
  "o_stores (tpu_decoding_kernel NEG_INF softmax_scale mask_fn batch_index j sc
               q_ref k_ref v_ref b_ref s) =
     o_stores s + (if int j = kv_block_offset_size sc ! batch_index - 1 then 1 else 0)"
  by (simp add: tpu_decoding_kernel_def Let_def compute_def final_def)

lemma grid_step_stores:
  "o_stores (grid_step NEG_INF softmax_scale mask_fn batch_index sc q_ref views j s) =
     o_stores s + (if int j = kv_block_offset_size sc ! batch_index - 1 then 1 else 0)"
  using kernel_stores by (simp add: grid_step_def split: prod.splits)

lemma lane_stores:
  assumes "1 \<le> kv_block_offset_size sc ! batch_index"
  shows "o_stores (lane NEG_INF softmax_scale mask_fn batch_index sc q_ref views t s) =
           o_stores s + (if kv_block_offset_size sc ! batch_index \<le> int t then 1 else 0)"
proof (induction t)
  case 0
  with assms show ?case by (simp add: lane_0)
next
  case (Suc t)
  show ?case
    unfolding lane_Suc grid_step_stores Suc.IH using assms by auto
qed

lemma kernel_last_output:
  assumes "int j = kv_block_offset_size sc ! batch_index - 1"
  shows "o_ref (tpu_decoding_kernel NEG_INF softmax_scale mask_fn batch_index j sc
                  q_ref k_ref v_ref b_ref s) =
         normalize
           (o_scratch (tpu_decoding_kernel NEG_INF softmax_scale mask_fn batch_index j sc
                         q_ref k_ref v_ref b_ref s))
           (l_i (tpu_decoding_kernel NEG_INF softmax_scale mask_fn batch_index j sc
                   q_ref k_ref v_ref b_ref s))"
  using assms by (simp add: tpu_decoding_kernel_def Let_def final_def)

lemma lane_last_output:
  assumes "1 \<le> kv_block_offset_size sc ! batch_index"
  shows "o_ref (lane NEG_INF softmax_scale mask_fn batch_index sc q_ref views
                  (nat (kv_block_offset_size sc ! batch_index)) s) =
         normalize
           (o_scratch (lane NEG_INF softmax_scale mask_fn batch_index sc q_ref views
                         (nat (kv_block_offset_size sc ! batch_index)) s))
           (l_i (lane NEG_INF softmax_scale mask_fn batch_index sc q_ref views
                   (nat (kv_block_offset_size sc ! batch_index)) s))"
proof -
  from assms obtain t where t: "nat (kv_block_offset_size sc ! batch_index) = Suc t"
    by (cases "nat (kv_block_offset_size sc ! batch_index)") auto
  then have j: "int t = kv_block_offset_size sc ! batch_index - 1" by linarith
  show ?thesis
    unfolding t lane_Suc using kernel_last_output [OF j]
    by (simp add: grid_step_def split: prod.splits)
qed

section \<open>The accumulators of a lane\<close>

lemma is_matrix_nth: "is_matrix r c a \<Longrightarrow> i < r \<Longrightarrow> length (a ! i) = c"
  by (simp add: is_matrix_def list_all_length)

lemma is_matrix_length: "is_matrix r c a \<Longrightarrow> length a = r"
  by (simp add: is_matrix_def)

lemma is_matrixI: "length a = r \<Longrightarrow> (\<And>i. i < r \<Longrightarrow> length (a ! i) = c) \<Longrightarrow> is_matrix r c a"
  by (simp add: is_matrix_def list_all_length)

lemma ncols_is_matrix: "is_matrix r c a \<Longrightarrow> 0 < r \<Longrightarrow> ncols a = c"
  by (cases a) (auto simp: is_matrix_def ncols_def)

lemma ncols_transpose_m:
  assumes "is_matrix D B v" "0 < B"
  shows "ncols (transpose_m v) = D"
proof (cases "D = 0")
  case True
  with assms have "v = []" by (simp add: is_matrix_def)
  then show ?thesis using True by (simp add: transpose_m_def ncols_def)
next
  case False
  then have nc: "ncols v = B" using assms ncols_is_matrix by blast
  have "[0..<B] = 0 # [1..<B]" using assms(2) by (simp add: upt_conv_Cons)
  then have "transpose_m v = col v 0 # map (col v) [1..<B]"
    by (simp add: transpose_m_def nc)
  then show ?thesis
    using assms by (simp add: ncols_def col_def is_matrix_def)
qed

lemma col_transpose_m:
  assumes "is_matrix D B v" "d < D"
  shows "col (transpose_m v) d = v ! d"
proof -
  have nc: "ncols v = B" using assms ncols_is_matrix by fastforce
  have len: "length (v ! d) = B" using assms is_matrix_nth by blast
  have "col (transpose_m v) d = map (\<lambda>c. v ! d ! c) [0..<B]"
    using assms by (simp add: col_def transpose_m_def nc is_matrix_def)
  also have "\<dots> = v ! d"
    using len map_nth [of "v ! d"] by simp
  finally show ?thesis .
qed


lemma dot_shape: "is_matrix (length a) (ncols b) (dot a b)"
  by (simp add: dot_def is_matrix_def list_all_length)

lemma s_curr_nth:
  "r < length qk \<Longrightarrow> r < length m \<Longrightarrow> s_curr qk m ! r = map (\<lambda>x. exp (x - m ! r)) (qk ! r)"
  by (simp add: s_curr_def)

lemma accumulate_shape:
  assumes "is_matrix R B qk" "is_matrix D B v" "refs_shaped R D s" "0 < B"
  shows "refs_shaped R D (accumulate qk v s)"
proof -
  have lq: "length qk = R" using assms(1) by (simp add: is_matrix_def)
  have lm: "length (m_i s) = R" "length (l_i s) = R" "length (o_scratch s) = R"
    using assms(3) by (simp_all add: refs_shaped_def is_matrix_def)
  have nc: "ncols (transpose_m v) = D" using ncols_transpose_m assms by blast
  show ?thesis
    unfolding refs_shaped_def
    using lq lm assms(3) is_matrix_nth [of R D "o_scratch s"]
    by (auto simp: accumulate_def Let_def s_curr_def dot_def nc refs_shaped_def intro!: is_matrixI)
qed

lemma accumulate_m:
  assumes "is_matrix R B qk" "refs_shaped R D s" "r < R"
  shows "m_i (accumulate qk v s) ! r = max (m_i s ! r) (rowmax (qk ! r))"
  using assms by (simp add: accumulate_def Let_def refs_shaped_def is_matrix_def)

lemma accumulate_l:
  assumes "is_matrix R B qk" "refs_shaped R D s" "r < R"
  shows "l_i (accumulate qk v s) ! r =
           exp (m_i s ! r - m_i (accumulate qk v s) ! r) * l_i s ! r
           + (\<Sum>x\<leftarrow>qk ! r. exp (x - m_i (accumulate qk v s) ! r))"
  using assms by (simp add: accumulate_def Let_def refs_shaped_def is_matrix_def s_curr_def)

lemma accumulate_o:
  assumes "is_matrix R B qk" "is_matrix D B v" "refs_shaped R D s" "0 < B" "r < R" "d < D"
  shows "o_scratch (accumulate qk v s) ! r ! d =
           exp (m_i s ! r - m_i (accumulate qk v s) ! r) * o_scratch s ! r ! d
           + sum_list (map2 (\<lambda>x y. exp (x - m_i (accumulate qk v s) ! r) * y) (qk ! r) (v ! d))"
proof -
  have lq: "length qk = R" using assms(1) by (simp add: is_matrix_def)
  have lm: "length (m_i s) = R" "length (l_i s) = R" "length (o_scratch s) = R"
    using assms(3) by (simp_all add: refs_shaped_def is_matrix_def)
  have lo: "length (o_scratch s ! r) = D"
    using assms(3,5) is_matrix_nth by (simp add: refs_shaped_def) blast
  have nc: "ncols (transpose_m v) = D" using ncols_transpose_m assms by blast
  have ct: "col (transpose_m v) d = v ! d" using col_transpose_m assms by blast
  have z: "map2 (*) (map (\<lambda>x. exp (x - m)) xs) ys = map2 (\<lambda>x y. exp (x - m) * y) xs ys" for m xs and ys :: "real list"
    by (simp add: zip_map1 case_prod_unfold)
  show ?thesis
    using lq lm lo assms(5,6)
    by (simp add: accumulate_def Let_def s_curr_def dot_def nc ct z)
qed

lemma exp_shift_sum:
  fixes m m' :: real
  shows "exp (m - m') * (\<Sum>x\<leftarrow>xs. exp (x - m)) = (\<Sum>x\<leftarrow>xs. exp (x - m'))"
proof -
  have "exp (m - m') * exp (x - m) = exp (x - m')" for x :: real
    by (simp add: exp_add [symmetric])
  then show ?thesis
    by (induction xs) (simp_all add: distrib_left)
qed

lemma exp_shift_sum2:
  fixes m m' :: real
  shows "exp (m - m') * sum_list (map2 (\<lambda>x y. exp (x - m) * y) xs vs)
         = sum_list (map2 (\<lambda>x y. exp (x - m') * y) xs vs)"
proof -
  have e: "exp (m - m') * (exp (x - m) * y) = exp (x - m') * y" for x y :: real
    by (simp add: exp_add [symmetric] mult.assoc [symmetric])
  show ?thesis
    by (induction xs vs rule: list_induct2') (simp_all add: distrib_left e)
qed

lemma acc_inv_step:
  assumes inv: "acc_inv R D s X V"
    and qk: "is_matrix R B qk" and v: "is_matrix D B v" and B: "0 < B"
  shows "acc_inv R D (accumulate qk v s) (\<lambda>r. X r @ qk ! r) (\<lambda>d. V d @ v ! d)"
proof -
  have sh: "refs_shaped R D s" using inv by (simp add: acc_inv_def)
  have len: "length (X r) = length (V d)" if "r < R" "d < D" for r d
    using inv that by (simp add: acc_inv_def)
  have l: "l_i s ! r = (\<Sum>x\<leftarrow>X r. exp (x - m_i s ! r))" if "r < R" for r
    using inv that by (simp add: acc_inv_def)
  have o: "o_scratch s ! r ! d = sum_list (map2 (\<lambda>x y. exp (x - m_i s ! r) * y) (X r) (V d))"
    if "r < R" "d < D" for r d
    using inv that by (simp add: acc_inv_def)
  have 1: "refs_shaped R D (accumulate qk v s)"
    using accumulate_shape [OF qk v sh B] .
  have 2: "length (X r @ qk ! r) = length (V d @ v ! d)" if "r < R" "d < D" for r d
    using len [OF that] is_matrix_nth [OF qk that(1)] is_matrix_nth [OF v that(2)] by simp
  have 3: "l_i (accumulate qk v s) ! r
             = (\<Sum>x\<leftarrow>X r @ qk ! r. exp (x - m_i (accumulate qk v s) ! r))" if "r < R" for r
    unfolding accumulate_l [OF qk sh that] l [OF that] exp_shift_sum by simp
  have 4: "o_scratch (accumulate qk v s) ! r ! d
             = sum_list (map2 (\<lambda>x y. exp (x - m_i (accumulate qk v s) ! r) * y)
                           (X r @ qk ! r) (V d @ v ! d))" if "r < R" "d < D" for r d
    unfolding accumulate_o [OF qk v sh B that] o [OF that] exp_shift_sum2
    using len [OF that] by simp
  show ?thesis
    unfolding acc_inv_def using 1 2 3 4 by blast
qed

lemma acc_inv_init:
  assumes "refs_shaped R D s"
  shows "acc_inv R D (init NEG_INF s) (\<lambda>_. []) (\<lambda>_. [])"
  using assms is_matrix_nth [of R D "o_scratch s"]
  by (auto simp: acc_inv_def init_def refs_shaped_def is_matrix_def list_all_length)

lemma acc_inv_final: "acc_inv R D s X V \<Longrightarrow> acc_inv R D (final s) X V"
  by (simp add: acc_inv_def refs_shaped_def)

lemma logits_shape:
  assumes q: "is_matrix R D q" and k: "is_matrix D B k" and D: "0 < D"
    and b: "bias_shaped R B b"
  shows "is_matrix R B (logits NEG_INF softmax_scale mask_fn kv_offset kv_seq_len q k b)"
proof -
  have nc: "ncols k = B" using ncols_is_matrix [OF k D] .
  have lq: "length q = R" using q by (simp add: is_matrix_def)
  have d: "is_matrix R B (dot q k)" using dot_shape [of q k] by (simp add: nc lq)
  define qk1 where
    "qk1 = (if softmax_scale \<noteq> 1 then map (map (\<lambda>x. x * softmax_scale)) (dot q k) else dot q k)"
  have s1: "is_matrix R B qk1"
    using d by (auto simp: qk1_def is_matrix_def list_all_length)
  define qk2 where
    "qk2 = (case b of None \<Rightarrow> qk1 | Some bm \<Rightarrow> map (map (\<lambda>x. max x NEG_INF)) (add_bias qk1 bm))"
  have s2: "is_matrix R B qk2"
  proof (cases b)
    case None
    then show ?thesis using s1 by (simp add: qk2_def)
  next
    case (Some bm)
    have l1: "length qk1 = R" and r1: "\<And>i. i < R \<Longrightarrow> length (qk1 ! i) = B"
      using s1 by (simp_all add: is_matrix_def list_all_length)
    have br1: "length (bm ! 0) = B" if "length bm = Suc 0"
      using b that Some by (auto simp: bias_shaped_def is_matrix_def list_all_length)
    have br2: "length (bm ! i) = B" if "length bm \<noteq> Suc 0" "i < R" for i
      using b that Some by (auto simp: bias_shaped_def is_matrix_def list_all_length)
    show ?thesis
      unfolding qk2_def Some
      by (rule is_matrixI) (simp_all add: add_bias_def l1 r1 br1 br2 nth_enumerate_eq)
  qed
  have "logits NEG_INF softmax_scale mask_fn kv_offset kv_seq_len q k b =
          map (\<lambda>row. map (\<lambda>(c, x). if kv_mask mask_fn kv_offset kv_seq_len c then x else NEG_INF)
                        (enumerate 0 row)) qk2"
    by (simp add: logits_def qk1_def qk2_def Let_def split: option.splits)
  then show ?thesis
    using s2 by (auto simp: is_matrix_def list_all_length)
qed

lemma grid_step_inv:
  assumes j: "int j < kv_block_offset_size sc ! batch_index"
    and vs: "views j = (k, v, b)" "is_matrix D B k" "is_matrix D B v" "bias_shaped R B b"
    and q: "is_matrix R D q_ref" and D: "0 < D" and B: "0 < B"
    and inv: "acc_inv R D (if j = 0 then init NEG_INF s else s) X V"
  shows "acc_inv R D (grid_step NEG_INF softmax_scale mask_fn batch_index sc q_ref views j s)
           (\<lambda>r. X r @ step_logits NEG_INF softmax_scale mask_fn batch_index sc q_ref views j ! r)
           (\<lambda>d. V d @ fst (snd (views j)) ! d)"
proof -
  let ?L = "logits NEG_INF softmax_scale mask_fn
              (kv_block_offset sc ! batch_index ! j * int (ncols k))
              (kv_seq_len_ref sc ! batch_index) q_ref k b"
  have L: "is_matrix R B ?L" using logits_shape [OF q vs(2) D vs(4)] .
  have a: "acc_inv R D (accumulate ?L v (if j = 0 then init NEG_INF s else s))
             (\<lambda>r. X r @ ?L ! r) (\<lambda>d. V d @ v ! d)"
    using acc_inv_step [OF inv L vs(3) B] .
  have sl: "step_logits NEG_INF softmax_scale mask_fn batch_index sc q_ref views j = ?L"
    by (simp add: step_logits_def vs(1))
  show ?thesis
    using a acc_inv_final [OF a] j
    by (auto simp: grid_step_def vs(1) tpu_decoding_kernel_def Let_def compute_def sl)
qed

lemma visited_logits_Suc:
  "visited_logits NEG_INF softmax_scale mask_fn batch_index sc q_ref views (Suc t) =
     (\<lambda>r. visited_logits NEG_INF softmax_scale mask_fn batch_index sc q_ref views t r
           @ step_logits NEG_INF softmax_scale mask_fn batch_index sc q_ref views t ! r)"
  by (rule ext) (simp add: visited_logits_def)

lemma visited_values_Suc:
  "visited_values views (Suc t) = (\<lambda>d. visited_values views t d @ fst (snd (views t)) ! d)"
  by (rule ext) (simp add: visited_values_def)

lemma lane_inv:
  assumes q: "is_matrix R D q_ref" and D: "0 < D" and B: "0 < B"
    and s: "refs_shaped R D s"
  shows "0 < t \<Longrightarrow> int t \<le> kv_block_offset_size sc ! batch_index \<Longrightarrow>
         views_shaped R D B views t \<Longrightarrow>
         acc_inv R D (lane NEG_INF softmax_scale mask_fn batch_index sc q_ref views t s)
           (visited_logits NEG_INF softmax_scale mask_fn batch_index sc q_ref views t)
           (visited_values views t)"
proof (induction t)
  case 0
  then show ?case by simp
next
  case (Suc t)
  obtain k v b where vt: "views t = (k, v, b)" by (cases "views t") auto
  have sh: "is_matrix D B k" "is_matrix D B v" "bias_shaped R B b"
    using Suc.prems(3) vt by (simp_all add: views_shaped_def)
  have j: "int t < kv_block_offset_size sc ! batch_index" using Suc.prems(2) by simp
  let ?s = "lane NEG_INF softmax_scale mask_fn batch_index sc q_ref views t s"
  have pre: "acc_inv R D (if t = 0 then init NEG_INF ?s else ?s)
               (visited_logits NEG_INF softmax_scale mask_fn batch_index sc q_ref views t)
               (visited_values views t)"
  proof (cases "t = 0")
    case True
    have e1: "visited_logits NEG_INF softmax_scale mask_fn batch_index sc q_ref views 0 = (\<lambda>_. [])"
      by (rule ext) (simp add: visited_logits_def)
    have e2: "visited_values views 0 = (\<lambda>_. [])"
      by (rule ext) (simp add: visited_values_def)
    show ?thesis
      using acc_inv_init [OF s, of NEG_INF] by (simp add: True lane_0 e1 e2)
  next
    case False
    then show ?thesis
      using Suc.IH Suc.prems by (simp add: views_shaped_def)
  qed
  show ?case
    unfolding lane_Suc visited_logits_Suc visited_values_Suc
    using grid_step_inv [where views = views and j = t, OF j vt sh q D B pre] .
qed

lemma sum_list_divide_zip:
  fixes c :: real
  shows "sum_list (map2 (*) (map (\<lambda>x. exp x / c) xs) vs)
         = sum_list (map2 (\<lambda>x y. exp x * y) xs vs) / c"
  by (induction xs vs rule: list_induct2') (simp_all add: add_divide_distrib)

lemma softmax_avg_eq:
  "softmax_avg xs vs = sum_list (map2 (\<lambda>x y. exp x * y) xs vs) / sum_list (map exp xs)"
  unfolding softmax_avg_def softmax_def by (rule sum_list_divide_zip)

lemma ratio_softmax_avg:
  fixes m :: real
  shows "sum_list (map2 (\<lambda>x y. exp (x - m) * y) xs vs) / (\<Sum>x\<leftarrow>xs. exp (x - m))
         = softmax_avg xs vs"
proof -
  have a: "sum_list (map2 (\<lambda>x y. exp (x - m) * y) xs vs)
             = exp (0 - m) * sum_list (map2 (\<lambda>x y. exp (x - 0) * y) xs vs)"
    by (simp only: exp_shift_sum2)
  have b: "(\<Sum>x\<leftarrow>xs. exp (x - m)) = exp (0 - m) * (\<Sum>x\<leftarrow>xs. exp (x - 0))"
    by (simp only: exp_shift_sum)
  show ?thesis
    unfolding a b softmax_avg_eq by simp
qed

lemma kernel_accumulates:
  assumes "int j < kv_block_offset_size sc ! batch_index"
  shows "m_i (tpu_decoding_kernel NEG_INF softmax_scale mask_fn batch_index j sc
                q_ref k_ref v_ref b_ref s)
         = m_i (accumulate (logits NEG_INF softmax_scale mask_fn
                  (kv_block_offset sc ! batch_index ! j * int (ncols k_ref))
                  (kv_seq_len_ref sc ! batch_index) q_ref k_ref b_ref) v_ref
                  (if j = 0 then init NEG_INF s else s))
       \<and> l_i (tpu_decoding_kernel NEG_INF softmax_scale mask_fn batch_index j sc
                q_ref k_ref v_ref b_ref s)
         = l_i (accumulate (logits NEG_INF softmax_scale mask_fn
                  (kv_block_offset sc ! batch_index ! j * int (ncols k_ref))
                  (kv_seq_len_ref sc ! batch_index) q_ref k_ref b_ref) v_ref
                  (if j = 0 then init NEG_INF s else s))
       \<and> o_scratch (tpu_decoding_kernel NEG_INF softmax_scale mask_fn batch_index j sc
                q_ref k_ref v_ref b_ref s)
         = o_scratch (accumulate (logits NEG_INF softmax_scale mask_fn
                  (kv_block_offset sc ! batch_index ! j * int (ncols k_ref))
                  (kv_seq_len_ref sc ! batch_index) q_ref k_ref b_ref) v_ref
                  (if j = 0 then init NEG_INF s else s))"
  using assms by (simp add: tpu_decoding_kernel_def Let_def compute_def)

lemma lane_ratio:
  assumes "is_matrix R D q_ref" "0 < D" "0 < B" "refs_shaped R D s"
    and "0 < t" "int t \<le> kv_block_offset_size sc ! batch_index"
    and "views_shaped R D B views t" "r < R" "d < D"
  shows "o_scratch (lane NEG_INF softmax_scale mask_fn batch_index sc q_ref views t s) ! r ! d
         / l_i (lane NEG_INF softmax_scale mask_fn batch_index sc q_ref views t s) ! r
         = softmax_avg (visited_logits NEG_INF softmax_scale mask_fn batch_index sc q_ref views t r)
             (visited_values views t d)"
proof -
  have inv: "acc_inv R D (lane NEG_INF softmax_scale mask_fn batch_index sc q_ref views t s)
           (visited_logits NEG_INF softmax_scale mask_fn batch_index sc q_ref views t)
           (visited_values views t)"
    using lane_inv [OF assms(1,2,3,4,5,6,7)] .
  show ?thesis
    using inv assms(8,9) by (simp add: acc_inv_def ratio_softmax_avg)
qed

section \<open>The logits of a block\<close>


section \<open>Rows of the block offset table\<close>

lemma rowmax_Max: "xs \<noteq> [] \<Longrightarrow> rowmax xs = Max (set xs)"
  by (cases xs) (simp, simp only: rowmax.simps Max.set_eq_fold)

lemma take_row_mem: "xs \<noteq> [] \<Longrightarrow> take_row xs i \<in> set xs"
proof -
  assume "xs \<noteq> []"
  then have "0 < length xs" by simp
  then have "nat (max 0 (min (int (length xs) - 1) j)) < length xs" for j
    by linarith
  then show ?thesis
    unfolding take_row_def Let_def by (rule nth_mem)
qed

lemma cdiv_dvd:
  assumes "0 < b" "b dvd a"
  shows "cdiv a b * b = a"
proof -
  from assms(2) obtain k where k: "a = b * k" by (auto simp: dvd_def)
  have "a + b - 1 = b * k + (b - 1)" using assms(1) k by simp
  moreover have "(b * k + (b - 1)) div b = k"
    using assms(1) by (simp only: div_mult_self4) simp
  ultimately have "(a + b - 1) div b = k" by simp
  then show ?thesis by (simp add: cdiv_def k)
qed

lemma sorted_last_ge:
  fixes xs :: "nat list"
  shows "sorted xs \<Longrightarrow> x \<in> set xs \<Longrightarrow> x \<le> last xs"
  by (induction xs) (auto split: if_splits)

lemma padded_row:
  fixes js :: "nat list"
  assumes s: "sorted js" and ne: "js \<noteq> []" and lt: "\<forall>j\<in>set js. j < W"
    and len: "length js \<le> W" and p: "p < W"
  defines "row \<equiv> map int js @ replicate (W - length js) (- 1)"
  shows "rowmax row = int (last js)"
    and "filter (\<lambda>e. e \<noteq> - 1) row = map int js"
    and "(if row ! p = - 1 then rowmax row else row ! p) \<noteq> - 1"
    and "0 \<le> (if row ! p = - 1 then rowmax row else row ! p)"
    and "(if row ! p = - 1 then rowmax row else row ! p) < int W"
proof -
  have rne: "row \<noteq> []" using ne by (simp add: row_def)
  have "Max (set row) = int (last js)"
  proof (rule Max_eqI)
    show "finite (set row)" by simp
    show "y \<le> int (last js)" if "y \<in> set row" for y
      using that sorted_last_ge [OF s] by (auto simp: row_def)
    show "int (last js) \<in> set row"
      using ne by (simp add: row_def)
  qed
  then show m: "rowmax row = int (last js)" using rowmax_Max [OF rne] by simp
  show "filter (\<lambda>e. e \<noteq> - 1) row = map int js"
    by (simp add: row_def filter_map comp_def)
  have l: "last js < W" using lt ne by simp
  have e: "row ! p = int (js ! p)" if "p < length js"
    using that by (simp add: row_def nth_append)
  have e': "row ! p = - 1" if "\<not> p < length js"
    using that p len by (simp add: row_def nth_append)
  have r: "js ! p < W" if "p < length js" using that lt by simp
  show "(if row ! p = - 1 then rowmax row else row ! p) \<noteq> - 1"
    using m by auto
  show "0 \<le> (if row ! p = - 1 then rowmax row else row ! p)"
    using m e e' by (cases "p < length js") auto
  show "(if row ! p = - 1 then rowmax row else row ! p) < int W"
    using m e e' l r by (cases "p < length js") auto
qed

lemma table_row_form:
  assumes "block_map_shaped bool_mask (cdiv padded block_size)"
  shows "\<exists>js. sorted js \<and> (\<forall>j\<in>set js. j < cdiv padded block_size)
            \<and> length js \<le> cdiv padded block_size
            \<and> take_row (offset_table bool_mask padded block_size) i
                = map int js @ replicate (cdiv padded block_size - length js) (- 1)"
proof (cases bool_mask)
  case None
  let ?W = "cdiv padded block_size"
  have W: "0 < ?W" using assms None by (simp add: block_map_shaped_def)
  have "take_row (offset_table bool_mask padded block_size) i
          \<in> set (offset_table bool_mask padded block_size)"
    using W None by (intro take_row_mem) (simp add: offset_table_def Let_def)
  then have "take_row (offset_table bool_mask padded block_size) i = map int [0..<?W]"
    using None by (simp add: offset_table_def Let_def split: if_splits)
  then have "sorted [0..<?W] \<and> (\<forall>j\<in>set [0..<?W]. j < ?W) \<and> length [0..<?W] \<le> ?W
       \<and> take_row (offset_table bool_mask padded block_size) i
           = map int [0..<?W] @ replicate (?W - length [0..<?W]) (- 1)"
    by simp
  then show ?thesis by blast
next
  case (Some bm)
  let ?W = "cdiv padded block_size"
  let ?g = "\<lambda>row. map int (filter (\<lambda>j. row ! j) [0 ..< length row])
                  @ replicate (length row - length (filter (\<lambda>j. row ! j) [0 ..< length row])) (- 1)"
  have bm: "bm \<noteq> []" "\<And>r. r \<in> set bm \<Longrightarrow> length r = ?W"
    using assms Some by (auto simp: block_map_shaped_def list_all_iff)
  have tbl: "offset_table bool_mask padded block_size = map ?g bm"
    by (simp add: Some offset_table_def query_iterator_indices_def Let_def)
  have "take_row (offset_table bool_mask padded block_size) i \<in> set (map ?g bm)"
    unfolding tbl using bm(1) by (intro take_row_mem) simp
  then obtain r where r: "r \<in> set bm"
    "take_row (offset_table bool_mask padded block_size) i = ?g r"
    by auto
  let ?js = "filter (\<lambda>j. r ! j) [0 ..< ?W]"
  have "sorted ?js \<and> (\<forall>j\<in>set ?js. j < ?W) \<and> length ?js \<le> ?W
       \<and> take_row (offset_table bool_mask padded block_size) i
           = map int ?js @ replicate (?W - length ?js) (- 1)"
    using r(2) bm(2) [OF r(1)] length_filter_le [of "\<lambda>j. r ! j" "[0 ..< ?W]"]
    by (simp add: sorted_filter [where f = id, simplified])
  then show ?thesis by blast
qed

lemma block_tables_row:
  assumes "b < length kv_seq_len"
  shows "kv_block_offset (block_tables tbl block_size kv_seq_len) ! b
         = map (\<lambda>e. if e = - 1 then rowmax (take_row tbl (wrap32 (kv_seq_len ! b - 1) div int block_size))
                     else e)
             (take_row tbl (wrap32 (kv_seq_len ! b - 1) div int block_size))"
  using assms by (simp add: block_tables_def Let_def)

lemma build_mask_shaped:
  "block_map_shaped (Some (build_mask f q_len kv_len block_q block_k)) (cdiv kv_len block_k)
   = (0 < cdiv q_len block_q)"
  by (simp add: block_map_shaped_def build_mask_def list_all_iff)

section \<open>Further facts about the lane and the driver\<close>


lemma kv_views_logit_sink:
  "kv_views mem (ib\<lparr>logit_sink := sink\<rparr>) = kv_views mem ib"
  by (rule ext)+ (simp add: kv_views_def lane_bias_def Let_def)

lemma pallas_call_logit_sink:
  "pallas_call NEG_INF softmax_scale mask_fn mem (ib\<lparr>logit_sink := sink\<rparr>) block_kv sc
   = pallas_call NEG_INF softmax_scale mask_fn mem ib block_kv sc"
  by (simp add: pallas_call_def kv_views_logit_sink Let_def)

lemma lane_shaped:
  assumes "is_matrix R D q_ref" "0 < D" "0 < B" "refs_shaped R D s"
    and "0 < t" "int t \<le> kv_block_offset_size sc ! batch_index" "views_shaped R D B views t"
  shows "refs_shaped R D (lane NEG_INF softmax_scale mask_fn batch_index sc q_ref views t s)"
  using lane_inv [OF assms] by (simp add: acc_inv_def)

lemma is_matrix_row_nonempty: "is_matrix R B a \<Longrightarrow> 0 < B \<Longrightarrow> r < R \<Longrightarrow> a ! r \<noteq> []"
  using is_matrix_nth [of R B a r] by auto

lemma accumulate_m_Max:
  assumes "is_matrix R B qk" "refs_shaped R D s" "r < R" "0 < B"
  shows "m_i (accumulate qk v s) ! r = max (m_i s ! r) (Max (set (qk ! r)))"
  using accumulate_m [OF assms(1,2,3)] rowmax_Max [OF is_matrix_row_nonempty [OF assms(1,4,3)]]
  by simp

lemma lane_max:
  assumes q: "is_matrix R D q_ref" and D: "0 < D" and B: "0 < B"
    and s: "refs_shaped R D s" and r: "r < R"
  shows "0 < t \<Longrightarrow> int t \<le> kv_block_offset_size sc ! batch_index \<Longrightarrow>
         views_shaped R D B views t \<Longrightarrow>
         m_i (lane NEG_INF softmax_scale mask_fn batch_index sc q_ref views t s) ! r
           = Max (insert NEG_INF
                   (set (visited_logits NEG_INF softmax_scale mask_fn batch_index sc q_ref views t r)))"
proof (induction t)
  case 0
  then show ?case by simp
next
  case (Suc t)
  obtain k v b where vt: "views t = (k, v, b)" by (cases "views t") auto
  have sh: "is_matrix D B k" "is_matrix D B v" "bias_shaped R B b"
    using Suc.prems(3) vt by (simp_all add: views_shaped_def)
  have j: "int t < kv_block_offset_size sc ! batch_index" using Suc.prems(2) by simp
  let ?s = "lane NEG_INF softmax_scale mask_fn batch_index sc q_ref views t s"
  let ?L = "logits NEG_INF softmax_scale mask_fn
              (kv_block_offset sc ! batch_index ! t * int (ncols k))
              (kv_seq_len_ref sc ! batch_index) q_ref k b"
  have L: "is_matrix R B ?L" using logits_shape [OF q sh(1) D sh(3)] .
  have sl: "step_logits NEG_INF softmax_scale mask_fn batch_index sc q_ref views t = ?L"
    by (simp add: step_logits_def vt)
  have ne: "?L ! r \<noteq> []" using is_matrix_row_nonempty [OF L B r] .
  have fin: "finite (set (?L ! r))" by simp
  have step: "m_i (lane NEG_INF softmax_scale mask_fn batch_index sc q_ref views (Suc t) s) ! r
        = m_i (accumulate ?L v (if t = 0 then init NEG_INF ?s else ?s)) ! r"
    using kernel_accumulates [OF j] by (simp add: lane_Suc grid_step_def vt)
  show ?case
  proof (cases "t = 0")
    case True
    have i: "refs_shaped R D (init NEG_INF s)"
      using acc_inv_init [OF s] by (simp add: acc_inv_def)
    have m0: "m_i (init NEG_INF s) ! r = NEG_INF"
      using s r by (simp add: init_def refs_shaped_def)
    have "m_i (accumulate ?L v (init NEG_INF s)) ! r = max NEG_INF (Max (set (?L ! r)))"
      using accumulate_m_Max [OF L i r B] m0 by simp
    also have "\<dots> = Max (insert NEG_INF (set (?L ! r)))"
      using ne by (simp add: max.commute)
    finally show ?thesis
      using sl unfolding step by (simp add: True lane_0 visited_logits_def)
  next
    case False
    then have t: "0 < t" by simp
    have vs: "views_shaped R D B views t" using Suc.prems(3) by (simp add: views_shaped_def)
    have le: "int t \<le> kv_block_offset_size sc ! batch_index" using j by simp
    have sh': "refs_shaped R D ?s" using lane_shaped [OF q D B s t le vs] .
    have IH: "m_i ?s ! r = Max (insert NEG_INF
                (set (visited_logits NEG_INF softmax_scale mask_fn batch_index sc q_ref views t r)))"
      using Suc.IH [OF t le vs] .
    let ?X = "set (visited_logits NEG_INF softmax_scale mask_fn batch_index sc q_ref views t r)"
    have "m_i (accumulate ?L v ?s) ! r = max (Max (insert NEG_INF ?X)) (Max (set (?L ! r)))"
      using accumulate_m_Max [OF L sh' r B] IH by simp
    also have "\<dots> = Max (insert NEG_INF ?X \<union> set (?L ! r))"
      using ne by (subst Max_Un) simp_all
    finally show ?thesis
      using sl unfolding step by (simp add: False visited_logits_Suc)
  qed
qed



text \<open>
  Where the replacement of the padding does what it is meant to do. For every mask variant
  (no mask function, or any block map with at least one row and one column for each key
  block, such as what \<open>build_mask\<close> returns for any mask function) and every batch element
  whose selected row holds at least one entry that is no sentinel: every entry \<open>p\<close> of the
  final row is what it was, or, where it was the sentinel, the last entry of the row that is
  none (the index of the last non-masked block of the row); no entry is the sentinel; every
  entry is a key block index, from 0 to below the number of key blocks, and, when the block
  size divides the padded length, its block is inside the key array.
\<close>

lemma remap_row_with_valid_block:
  assumes "b < length kv_seq_len"
    and "block_map_shaped bool_mask (cdiv padded block_size)"
    and "row = take_row (offset_table bool_mask padded block_size)
                 (wrap32 (kv_seq_len ! b - 1) div int block_size)"
    and "list_ex (\<lambda>e. e \<noteq> - 1) row"
    and "p < cdiv padded block_size"
  shows "kv_block_offset (block_tables (offset_table bool_mask padded block_size)
                            block_size kv_seq_len) ! b ! p
           = (if row ! p = - 1 then last (filter (\<lambda>e. e \<noteq> - 1) row) else row ! p)
       \<and> kv_block_offset (block_tables (offset_table bool_mask padded block_size)
                            block_size kv_seq_len) ! b ! p \<noteq> - 1
       \<and> 0 \<le> kv_block_offset (block_tables (offset_table bool_mask padded block_size)
                            block_size kv_seq_len) ! b ! p
       \<and> kv_block_offset (block_tables (offset_table bool_mask padded block_size)
                            block_size kv_seq_len) ! b ! p < int (cdiv padded block_size)
       \<and> length (kv_block_offset (block_tables (offset_table bool_mask padded block_size)
                            block_size kv_seq_len) ! b) = cdiv padded block_size
       \<and> (0 < block_size \<and> block_size dvd padded \<longrightarrow>
            (nat (kv_block_offset (block_tables (offset_table bool_mask padded block_size)
                                     block_size kv_seq_len) ! b ! p) + 1) * block_size \<le> padded)
       \<and> block_map_shaped (Some (build_mask f padded padded block_size block_size))
            (cdiv padded block_size) = (0 < cdiv padded block_size)"
proof -
  let ?W = "cdiv padded block_size"
  obtain js where js: "sorted js" "\<forall>j\<in>set js. j < ?W" "length js \<le> ?W"
    "row = map int js @ replicate (?W - length js) (- 1)"
    using table_row_form [OF assms(2)] assms(3) by blast
  have ne: "js \<noteq> []"
    using assms(4) js(4) by (auto simp: list_ex_iff)
  note pr = padded_row [OF js(1) ne js(2,3) assms(5), folded js(4)]
  have len: "length row = ?W" using js(3,4) by simp
  have e: "kv_block_offset (block_tables (offset_table bool_mask padded block_size)
                            block_size kv_seq_len) ! b ! p
           = (if row ! p = - 1 then rowmax row else row ! p)"
    unfolding block_tables_row [OF assms(1)] assms(3) [symmetric]
    using assms(5) len by simp
  have l: "last (filter (\<lambda>e. e \<noteq> - 1) row) = rowmax row"
    unfolding pr(1,2) using ne by (simp add: last_map)
  have ln: "length (kv_block_offset (block_tables (offset_table bool_mask padded block_size)
                            block_size kv_seq_len) ! b) = ?W"
    unfolding block_tables_row [OF assms(1)] assms(3) [symmetric] using len by simp
  have inr: "(nat x + 1) * block_size \<le> padded"
    if "0 < block_size" "block_size dvd padded" "0 \<le> x" "x < int ?W" for x
  proof -
    have "nat x + 1 \<le> ?W" using that(3,4) by linarith
    then have "(nat x + 1) * block_size \<le> ?W * block_size" by (rule mult_le_mono1)
    then show ?thesis using cdiv_dvd [OF that(1,2)] by simp
  qed
  show ?thesis
    unfolding e l using pr(3,4,5) ln build_mask_shaped [of f padded padded block_size block_size]
      inr [of "if row ! p = - 1 then rowmax row else row ! p"]
    by simp
qed

section \<open>Blocks of a row and the dense softmax\<close>









section \<open>The blocks a lane visits\<close>





section \<open>Block views as slices of the arrays\<close>








section \<open>A lane and the dense reference\<close>








section \<open>Evaluations of the examples\<close>

lemma ex_sc0_eq:
  "ex_sc0 = \<lparr>kv_seq_len_ref = [1, 3], kv_block_offset = [[1, 1], [1, 1]],
             kv_block_offset_size = [0, 1]\<rparr>"
  by code_simp

lemma ex_sc1_eq:
  "ex_sc1 = \<lparr>kv_seq_len_ref = [2], kv_block_offset = [[0]], kv_block_offset_size = [1]\<rparr>"
  by code_simp

lemma ex_vl: "visited_logits ex_NEG_INF 1 None 0 ex_sc1 [[0]] ex_views 1 0 = [0, 0]"
  by (simp add: visited_logits_def step_logits_def ex_views_def logits_def dot_def ncols_def
        col_def kv_mask_def ex_sc1_eq Let_def enumerate_eq_zip upt_rec)

lemma ex_vv: "visited_values ex_views 1 0 = [1, 2]"
  by (simp add: visited_values_def ex_views_def)

lemma ex_sa: "softmax_avg [0, 0] [1, 2] = 3 / 2"
  by (simp add: softmax_avg_def softmax_def)

lemma ex_NEG_INF_neg: "ex_NEG_INF < 0"
  by (simp add: ex_NEG_INF_def)

lemma ex_dot2: "dot [[1]] [[0, 0]] = [[0, 0]]"
  by (simp add: dot_def ncols_def col_def upt_conv_Cons)

lemma ex_logits2: "logits ex_NEG_INF 1 None 0 2 [[1]] [[0, 0]] None = [[0, 0]]"
  by (simp add: logits_def ex_dot2 kv_mask_def enumerate_eq_zip upt_conv_Cons)

lemma ex_transpose2: "transpose_m [[1, 3]] = [[1], [3]]"
  by (simp add: transpose_m_def ncols_def col_def upt_conv_Cons)

lemma ex_acc2:
  "accumulate [[0, 0]] [[1, 3]] (init ex_NEG_INF ex_refs)
   = \<lparr>m_i = [0], l_i = [2], o_scratch = [[4]], o_ref = [[7]], o_stores = 0\<rparr>"
  using ex_NEG_INF_neg
  by (simp add: accumulate_def Let_def init_def ex_refs_def s_curr_def ex_transpose2 dot_def
        ncols_def col_def max_def)

lemma ex_lane2:
  assumes "views 0 = ([[0, 0]], [[1, 3]], None)"
  shows "o_ref (lane ex_NEG_INF 1 None 0 ex_sc1 [[1]] views 1 ex_refs) = [[2]]"
  using assms
  by (simp add: lane_def grid_step_def tpu_decoding_kernel_def ex_sc1_eq Let_def ncols_def
        compute_def ex_logits2 ex_acc2 final_def normalize_def)

lemma ex_views2: "kv_views ex_mem ex_batch ex_sc1 2 0 0 0 = ([[0, 0]], [[1, 3]], None)"
  by (simp add: kv_views_def ex_batch_def ex_sc1_eq block_view_def lane_bias_def Let_def
        enumerate_eq_zip upt_conv_Cons)

lemma ex_pallas:
  "pallas_call ex_NEG_INF 1 None ex_mem ex_batch 2 ex_sc1 = [[[[2]]]]"
proof -
  have s: "nat (rowmax (kv_block_offset_size ex_sc1)) = 1" by (simp add: ex_sc1_eq)
  have v: "o_ref (lane ex_NEG_INF 1 None 0 ex_sc1 [[1]]
                    (kv_views ex_mem ex_batch ex_sc1 2 0 0) 1 ex_refs) = [[2]]"
    by (rule ex_lane2) (simp add: ex_views2)
  have b: "batch_size ex_batch = 1" "kv_heads ex_batch = 1" "b_query ex_batch 0 0 = [[1]]"
    "buffers ex_mem 0 0 = ex_refs"
    by (simp_all add: ex_batch_def ex_mem_def)
  show ?thesis
    unfolding pallas_call_def s Let_def using v by (simp add: b)
qed

lemma ex_call: "call ex_NEG_INF ex_cfg ex_sw ex_mem ex_batch = Inr [[[[2]]]]"
proof -
  have a: "bias_mask ex_batch = Some \<lparr>mask_of = None, target_positions = Some [[0, 1]],
                         sliding_window_size = None\<rparr>"
    "padded_kv_seq_len ex_batch = 2" "batch_size ex_batch = 1" "q_seq_head ex_batch = 1"
    "kv_heads ex_batch = 1" "head_dim ex_batch = 1"
    by (simp_all add: ex_batch_def)
  have t: "block_tables (offset_table None 2 2) 2 [2] = ex_sc1" by (simp add: ex_sc1_def)
  have w: "wrap32 2 = 2" by (simp add: wrap32_def)
  show ?thesis
    unfolding call_def a
    by (simp add: last_plus_one_def broadcast_to_def kv_block_size_def ex_cfg_def block_map_def
          t ex_pallas w)
qed

lemma ex_reference:
  "reference_with_sink ex_NEG_INF 1 None 2 [[1]] [[0, 0]] [[1, 3]] 0 = [[4 / 3]]"
  by (simp add: reference_with_sink_def ex_logits2 sink_attention_def)

lemma ex_sc5_eq:
  "ex_sc5 = \<lparr>kv_seq_len_ref = [4], kv_block_offset = [[0, 1]], kv_block_offset_size = [2]\<rparr>"
  by code_simp

lemma ex_dot5: "dot [[1]] [[0, 0]] = [[0, 0]]" "dot [[1]] [[1, 1]] = [[1, 1]]"
  by (simp_all add: dot_def ncols_def col_def upt_conv_Cons)

lemma ex_step_logits5:
  "step_logits ex_NEG_INF 1 None 0 ex_sc5 [[1]] ex_views5 0 = [[0, 0]]"
  "step_logits ex_NEG_INF 1 None 0 ex_sc5 [[1]] ex_views5 (Suc 0) = [[1, 1]]"
  by (simp_all add: step_logits_def ex_views5_def logits_def ex_dot5 ncols_def kv_mask_def
        ex_sc5_eq Let_def enumerate_eq_zip upt_conv_Cons)

lemma ex_vl5: "visited_logits ex_NEG_INF 1 None 0 ex_sc5 [[1]] ex_views5 2 0 = [0, 0, 1, 1]"
  by (simp add: visited_logits_def ex_step_logits5 upt_conv_Cons)

lemma ex_vv5: "visited_values ex_views5 2 0 = [1, 2, 3, 5]"
  by (simp add: visited_values_def ex_views5_def upt_conv_Cons)

lemma ex_sa5: "softmax_avg [0, 0, 1, 1] [1, 2, 3, 5] = (3 + 8 * exp 1) / (2 + 2 * exp 1)"
  by (simp add: softmax_avg_def softmax_def add_divide_distrib algebra_simps)















lemma ex_sc2_eq:
  "ex_sc2 = \<lparr>kv_seq_len_ref = [1, 3], kv_block_offset = [[- 1, - 1], [1, 1]],
             kv_block_offset_size = [0, 1]\<rparr>"
  by code_simp


lemma ex_sc2_shaped: "block_map_shaped (Some (build_mask ex_prefix_mask 4 4 2 2)) (cdiv 4 2)"
  by code_simp


lemma ex_sc2_row:
  "take_row (offset_table (Some (build_mask ex_prefix_mask 4 4 2 2)) 4 2) (wrap32 (1 - 1) div 2)
   = [- 1, - 1]"
  by code_simp

lemma ex_views_sentinel:
  "kv_views ex_mem ex_batch2 ex_sc2 2 0 0 0 = ([[0, 0]], [[0, 0]], None)"
  by (simp add: kv_views_def ex_batch2_def ex_sc2_eq block_view_def lane_bias_def Let_def
        enumerate_eq_zip upt_conv_Cons ex_mem_def)

















section \<open>Claim C1: the fused kernel and the dense reference\<close>





section \<open>Claim C2: the streaming softmax update\<close>

text \<open>
  Claim C2. The accumulator update of a block computes, for every query row, the new maximum
  \<open>m_next = max(m_prev, rowmax(logits))\<close>, where the row maximum is the greatest logit of the
  row, rescales the previous \<open>l\<close> and \<open>o\<close> by \<open>exp(m_prev - m_next)\<close>, and adds
  \<open>exp(logits - m_next)\<close>, summed into \<open>l\<close> and weighted by the values into \<open>o\<close>; a grid step
  that computes applies this update to the masked logits of its block (after the
  initialisation, at step 0). After every update, that is after \<open>t \<ge> 1\<close> steps of a lane
  that has at least \<open>t\<close> blocks to visit, \<open>m\<close> is the greatest of \<open>NEG_INF\<close> and all the logits
  visited so far, and \<open>o / l\<close> is the softmax-weighted average of the values over all blocks
  visited so far, whatever the buffers held before the lane. Arithmetic is exact real
  arithmetic; blocks have the shapes the block specifications give them.
\<close>

theorem streaming_softmax_update:
  assumes "is_matrix R D q_ref" "0 < D" "0 < B" "refs_shaped R D s"
    and "0 < t" "int t \<le> kv_block_offset_size sc ! batch_index"
    and "views_shaped R D B views t"
    and "is_matrix R B qk" "is_matrix D B v" "refs_shaped R D s'"
    and "r < R" "d < D"
    and "int j < kv_block_offset_size sc ! batch_index"
  shows "m_i (accumulate qk v s') ! r = max (m_i s' ! r) (Max (set (qk ! r)))
       \<and> l_i (accumulate qk v s') ! r =
           exp (m_i s' ! r - m_i (accumulate qk v s') ! r) * l_i s' ! r
           + (\<Sum>x\<leftarrow>qk ! r. exp (x - m_i (accumulate qk v s') ! r))
       \<and> o_scratch (accumulate qk v s') ! r ! d =
           exp (m_i s' ! r - m_i (accumulate qk v s') ! r) * o_scratch s' ! r ! d
           + sum_list (map2 (\<lambda>x y. exp (x - m_i (accumulate qk v s') ! r) * y) (qk ! r) (v ! d))
       \<and> m_i (tpu_decoding_kernel NEG_INF softmax_scale mask_fn batch_index j sc
                q_ref k_ref v_ref b_ref s'')
         = m_i (accumulate (logits NEG_INF softmax_scale mask_fn
                  (kv_block_offset sc ! batch_index ! j * int (ncols k_ref))
                  (kv_seq_len_ref sc ! batch_index) q_ref k_ref b_ref) v_ref
                  (if j = 0 then init NEG_INF s'' else s''))
       \<and> l_i (tpu_decoding_kernel NEG_INF softmax_scale mask_fn batch_index j sc
                q_ref k_ref v_ref b_ref s'')
         = l_i (accumulate (logits NEG_INF softmax_scale mask_fn
                  (kv_block_offset sc ! batch_index ! j * int (ncols k_ref))
                  (kv_seq_len_ref sc ! batch_index) q_ref k_ref b_ref) v_ref
                  (if j = 0 then init NEG_INF s'' else s''))
       \<and> o_scratch (tpu_decoding_kernel NEG_INF softmax_scale mask_fn batch_index j sc
                q_ref k_ref v_ref b_ref s'')
         = o_scratch (accumulate (logits NEG_INF softmax_scale mask_fn
                  (kv_block_offset sc ! batch_index ! j * int (ncols k_ref))
                  (kv_seq_len_ref sc ! batch_index) q_ref k_ref b_ref) v_ref
                  (if j = 0 then init NEG_INF s'' else s''))
       \<and> m_i (lane NEG_INF softmax_scale mask_fn batch_index sc q_ref views t s) ! r
         = Max (insert NEG_INF
             (set (visited_logits NEG_INF softmax_scale mask_fn batch_index sc q_ref views t r)))
       \<and> o_scratch (lane NEG_INF softmax_scale mask_fn batch_index sc q_ref views t s) ! r ! d
           / l_i (lane NEG_INF softmax_scale mask_fn batch_index sc q_ref views t s) ! r
         = softmax_avg (visited_logits NEG_INF softmax_scale mask_fn batch_index sc q_ref views t r)
             (visited_values views t d)"
  using accumulate_m_Max [OF assms(8,10,11,3)] accumulate_l [OF assms(8,10,11)]
    accumulate_o [OF assms(8,9,10,3,11,12)]
    lane_ratio [OF assms(1,2,3,4,5,6,7,11,12)]
    lane_max [OF assms(1,2,3,4,11,5,6,7)]
    kernel_accumulates [OF assms(13)]
  by blast

text \<open>
  One query row, head dimension one, two blocks of two keys. An update from the maximum 0,
  the normaliser 2 and the weighted sum 3 with the logits 1, 1 and the values 3, 5 raises the
  maximum to 1 and rescales the previous \<open>l\<close> and \<open>o\<close> by \<open>exp (- 1)\<close>. A lane over the logits
  0, 0, 1, 1 and the values 1, 2, 3, 5, started on buffers that hold the maximum 5, the
  normaliser 3 and the weighted sum 9, ends with the maximum 1 and with \<open>o / l\<close> the
  softmax-weighted average of the four values.
\<close>

theorem streaming_softmax_update_witness:
  "is_matrix 1 1 [[1::real]] \<and> refs_shaped 1 1 ex_refs5
   \<and> int 2 \<le> kv_block_offset_size ex_sc5 ! 0 \<and> views_shaped 1 1 2 ex_views5 2
   \<and> is_matrix 1 2 [[1, 1::real]] \<and> is_matrix 1 2 [[3, 5::real]] \<and> refs_shaped 1 1 ex_refs6
   \<and> int 1 < kv_block_offset_size ex_sc5 ! 0
   \<and> m_i (accumulate [[1, 1]] [[3, 5]] ex_refs6) ! 0 = 1
   \<and> l_i (accumulate [[1, 1]] [[3, 5]] ex_refs6) ! 0 = exp (- 1) * 2 + 2
   \<and> o_scratch (accumulate [[1, 1]] [[3, 5]] ex_refs6) ! 0 ! 0 = exp (- 1) * 3 + 8
   \<and> m_i (lane ex_NEG_INF 1 None 0 ex_sc5 [[1]] ex_views5 2 ex_refs5) ! 0 = 1
   \<and> o_scratch (lane ex_NEG_INF 1 None 0 ex_sc5 [[1]] ex_views5 2 ex_refs5) ! 0 ! 0
       / l_i (lane ex_NEG_INF 1 None 0 ex_sc5 [[1]] ex_views5 2 ex_refs5) ! 0
     = (3 + 8 * exp 1) / (2 + 2 * exp 1)"
proof -
  have h1: "is_matrix 1 1 [[1::real]]" by (simp add: is_matrix_def)
  have h2: "(0::nat) < 1" "(0::nat) < 2" by simp_all
  have h4: "refs_shaped 1 1 ex_refs5" by (simp add: refs_shaped_def ex_refs5_def is_matrix_def)
  have h6: "int 2 \<le> kv_block_offset_size ex_sc5 ! 0" by (simp add: ex_sc5_eq)
  have h7: "views_shaped 1 1 2 ex_views5 2"
    by (simp add: views_shaped_def ex_views5_def is_matrix_def bias_shaped_def list_all_iff)
  have h8: "is_matrix 1 2 [[1, 1::real]]" "is_matrix 1 2 [[3, 5::real]]"
    by (simp_all add: is_matrix_def)
  have h9: "refs_shaped 1 1 ex_refs6" by (simp add: refs_shaped_def ex_refs6_def is_matrix_def)
  have h10: "int 1 < kv_block_offset_size ex_sc5 ! 0" by (simp add: ex_sc5_eq)
  note w = streaming_softmax_update [OF h1 h2 h4 h2(2) h6 h7 h8 h9 h2(1) h2(1) h10,
        where NEG_INF = "ex_NEG_INF" and softmax_scale = 1 and mask_fn = None]
  have a: "m_i (accumulate [[1, 1]] [[3, 5]] ex_refs6) ! 0 = 1"
    using w by (simp add: ex_refs6_def)
  have b: "l_i (accumulate [[1, 1]] [[3, 5]] ex_refs6) ! 0 = exp (- 1) * 2 + 2"
    using w a by (simp add: ex_refs6_def)
  have c: "o_scratch (accumulate [[1, 1]] [[3, 5]] ex_refs6) ! 0 ! 0 = exp (- 1) * 3 + 8"
    using w a by (simp add: ex_refs6_def)
  have "m_i (lane ex_NEG_INF 1 None 0 ex_sc5 [[1]] ex_views5 2 ex_refs5) ! 0
        = Max (insert ex_NEG_INF
            (set (visited_logits ex_NEG_INF 1 None 0 ex_sc5 [[1]] ex_views5 2 0)))"
    using w by blast
  then have d: "m_i (lane ex_NEG_INF 1 None 0 ex_sc5 [[1]] ex_views5 2 ex_refs5) ! 0 = 1"
    using ex_NEG_INF_neg by (simp add: ex_vl5)
  have "o_scratch (lane ex_NEG_INF 1 None 0 ex_sc5 [[1]] ex_views5 2 ex_refs5) ! 0 ! 0
       / l_i (lane ex_NEG_INF 1 None 0 ex_sc5 [[1]] ex_views5 2 ex_refs5) ! 0
        = softmax_avg (visited_logits ex_NEG_INF 1 None 0 ex_sc5 [[1]] ex_views5 2 0)
            (visited_values ex_views5 2 0)"
    using w by blast
  then have e: "o_scratch (lane ex_NEG_INF 1 None 0 ex_sc5 [[1]] ex_views5 2 ex_refs5) ! 0 ! 0
       / l_i (lane ex_NEG_INF 1 None 0 ex_sc5 [[1]] ex_views5 2 ex_refs5) ! 0
       = (3 + 8 * exp 1) / (2 + 2 * exp 1)"
    by (simp only: ex_vl5 ex_vv5 ex_sa5)
  show ?thesis
    using h1 h4 h6 h7 h8 h9 h10 a b c d e by blast
qed

section \<open>Claim C3: the output is stored at most once\<close>

text \<open>
  Claim C3 says that every lane writes the normalised output exactly once, at scan index
  \<open>valid_block_count - 1\<close>. A lane without a block to visit never writes it: in the batch of
  \<open>ex_sc0\<close> the first element has no block to visit, the grid has one scan step, and the
  lane of that element ends with as many stores as it started with.
\<close>

theorem output_written_once_counterexample:
  "kv_block_offset_size ex_sc0 ! 0 = 0
   \<and> rowmax (kv_block_offset_size ex_sc0) = 1
   \<and> o_stores (lane ex_NEG_INF 1 (Some ex_mask) 0 ex_sc0 [[1]] ex_views
                 (nat (rowmax (kv_block_offset_size ex_sc0))) ex_refs) = o_stores ex_refs
   \<and> o_stores (lane ex_NEG_INF 1 (Some ex_mask) 0 ex_sc0 [[1]] ex_views
                 (nat (rowmax (kv_block_offset_size ex_sc0))) ex_refs) \<noteq> o_stores ex_refs + 1"
proof -
  have h: "kv_block_offset_size ex_sc0 ! 0 = 0" by (simp add: ex_sc0_eq)
  show ?thesis
    using h lane_no_blocks [OF h] by (simp add: ex_sc0_eq)
qed

text \<open>
  Claim C3, amended. For every lane with at least one block to visit
  (\<open>1 \<le> valid_block_count \<le> steps\<close>): after \<open>t\<close> scan steps the output has been stored once
  if \<open>t \<ge> valid_block_count\<close> and not at all before, so the one store is that of scan index
  \<open>valid_block_count - 1\<close>; the output at the end of the scan is the normalised accumulator
  \<open>o / l\<close> as it stands after that step; and a grid step with index
  \<open>j \<ge> valid_block_count\<close> changes nothing: no accumulator, not the output.
\<close>

theorem output_written_once:
  assumes "1 \<le> kv_block_offset_size sc ! batch_index"
    and "kv_block_offset_size sc ! batch_index \<le> int steps"
    and "kv_block_offset_size sc ! batch_index \<le> int j"
  shows "o_stores (lane NEG_INF softmax_scale mask_fn batch_index sc q_ref views t s) =
           o_stores s + (if kv_block_offset_size sc ! batch_index \<le> int t then 1 else 0)
       \<and> o_ref (lane NEG_INF softmax_scale mask_fn batch_index sc q_ref views steps s) =
           normalize
             (o_scratch (lane NEG_INF softmax_scale mask_fn batch_index sc q_ref views
                           (nat (kv_block_offset_size sc ! batch_index)) s))
             (l_i (lane NEG_INF softmax_scale mask_fn batch_index sc q_ref views
                     (nat (kv_block_offset_size sc ! batch_index)) s))
       \<and> tpu_decoding_kernel NEG_INF softmax_scale mask_fn batch_index j sc
           q_ref k_ref v_ref b_ref s' = s'"
  using lane_stores [OF assms(1)] lane_after_last [OF assms(1,2)] lane_last_output [OF assms(1)]
    kernel_after_last [OF assms(1,3)]
  by simp

text \<open>The second batch element of \<open>ex_sc0\<close> has one block to visit.\<close>

theorem output_written_once_witness:
  "1 \<le> kv_block_offset_size ex_sc0 ! 1
   \<and> kv_block_offset_size ex_sc0 ! 1 \<le> int 3
   \<and> kv_block_offset_size ex_sc0 ! 1 \<le> int 2
   \<and> o_stores (lane ex_NEG_INF 1 (Some ex_mask) 1 ex_sc0 [[1]] ex_views 0 ex_refs) = 0
   \<and> o_stores (lane ex_NEG_INF 1 (Some ex_mask) 1 ex_sc0 [[1]] ex_views 3 ex_refs) = 1
   \<and> o_ref (lane ex_NEG_INF 1 (Some ex_mask) 1 ex_sc0 [[1]] ex_views 3 ex_refs) =
       normalize (o_scratch (lane ex_NEG_INF 1 (Some ex_mask) 1 ex_sc0 [[1]] ex_views 1 ex_refs))
         (l_i (lane ex_NEG_INF 1 (Some ex_mask) 1 ex_sc0 [[1]] ex_views 1 ex_refs))
   \<and> tpu_decoding_kernel ex_NEG_INF 1 (Some ex_mask) 1 2 ex_sc0 [[1]] [[1, 1]] [[1, 2]] None
        ex_refs = ex_refs"
proof -
  have h: "1 \<le> kv_block_offset_size ex_sc0 ! 1" "kv_block_offset_size ex_sc0 ! 1 \<le> int 3"
    "kv_block_offset_size ex_sc0 ! 1 \<le> int 2"
    by (simp_all add: ex_sc0_eq)
  have n: "nat (kv_block_offset_size ex_sc0 ! 1) = 1" by (simp add: ex_sc0_eq)
  note w = output_written_once [OF h, where NEG_INF = "ex_NEG_INF" and softmax_scale = 1
      and mask_fn = "Some ex_mask" and q_ref = "[[1]]" and views = ex_views and s = ex_refs
      and s' = ex_refs and k_ref = "[[1, 1]]" and v_ref = "[[1, 2]]" and b_ref = None]
  show ?thesis
    using h w [of 0] w [of 3] by (simp add: n) (simp add: ex_sc0_eq ex_refs_def)
qed

section \<open>Claim C4: masked positions\<close>






section \<open>Claim C5: the padding of the block offset table\<close>

text \<open>
  Claim C5 says that for every mask variant and batch element every padding entry of the
  table is replaced by the index of the last valid block of its row, so that every block
  index the kernel reads at a grid step is that of a block of the key array. The driver
  replaces the padding by the maximum of the row. When no block of the selected row holds an
  unmasked pair, every entry of the row is padding and the maximum is the sentinel itself:
  with the mask function \<open>ex_prefix_mask\<close>, four key positions and block size 2, the row of
  the first batch element (true length 1) is \<open>[-1, -1]\<close> before and after the replacement.
  The grid has one scan step (the second element has one block to visit), and at that step
  the index map of the first element addresses block \<open>-1\<close>, key positions \<open>-2\<close> and \<open>-1\<close>:
  what the kernel is handed is no block of the key and value arrays.
\<close>

theorem all_padding_row_keeps_sentinel:
  "block_map_shaped (Some (build_mask ex_prefix_mask 4 4 2 2)) (cdiv 4 2)
   \<and> take_row (offset_table (Some (build_mask ex_prefix_mask 4 4 2 2)) 4 2)
        (wrap32 (1 - 1) div 2) = [- 1, - 1]
   \<and> kv_block_offset ex_sc2 ! 0 = [- 1, - 1]
   \<and> kv_block_offset_size ex_sc2 = [0, 1]
   \<and> nat (rowmax (kv_block_offset_size ex_sc2)) = 1
   \<and> kv_block_offset ex_sc2 ! 0 ! 0 * 2 = - 2
   \<and> kv_views ex_mem ex_batch2 ex_sc2 2 0 0 0 = ([[0, 0]], [[0, 0]], None)"
  using ex_sc2_shaped ex_sc2_row ex_views_sentinel by (simp add: ex_sc2_eq)

section \<open>Claim C6: when the kernel is not supported\<close>

text \<open>
  Claim C6 says that \<open>is_supported\<close> returns false exactly when the cache is of the wrong
  kind or the key length is no multiple of the block size and longer than one block. It
  returns false as well whenever the check of the base class does: here with the right cache
  and a key length of 8 for block size 4.
\<close>

theorem is_supported_counterexample:
  "is_supported 4 (Inr False) (Some KVCache) 8 = Inr False
   \<and> \<not> (Some KVCache \<noteq> Some KVCache \<or> ((8::nat) mod 4 \<noteq> 0 \<and> (8::nat) > 4))"
  by (simp add: is_supported_def)

text \<open>
  Claim C6, amended. For a positive block size and every cache type and key length: when the
  check of the base class accepts the input, \<open>is_supported\<close> returns (without raising) false
  exactly when the cache is of the wrong kind or the key length is both no multiple of the
  block size and greater than it; when the check of the base class returns false, so does
  \<open>is_supported\<close>. A key length of at most one block is exempt: it is supported, and the
  forward pass uses the reduced block size \<open>min(block size, key length)\<close>, the key length
  itself, which divides it.
\<close>

theorem is_supported_false_iff:
  assumes "0 < tpu_block_size"
  shows "is_supported tpu_block_size (Inr True) kv_cache_type k_seq_len =
           Inr (\<not> (kv_cache_type \<noteq> Some KVCache
                    \<or> (k_seq_len mod tpu_block_size \<noteq> 0 \<and> k_seq_len > tpu_block_size)))
       \<and> is_supported tpu_block_size (Inr False) kv_cache_type k_seq_len = Inr False
       \<and> (k_seq_len \<le> tpu_block_size \<longrightarrow>
            is_supported tpu_block_size (Inr True) (Some KVCache) k_seq_len = Inr True
            \<and> kv_block_size tpu_block_size k_seq_len = k_seq_len
            \<and> k_seq_len mod kv_block_size tpu_block_size k_seq_len = 0)"
  using assms by (auto simp: is_supported_def kv_block_size_def)

text \<open>Block size 128 with key lengths 200, 256 and 100, and without a cache type.\<close>

theorem is_supported_false_iff_witness:
  "(0::nat) < 128
   \<and> is_supported 128 (Inr True) (Some KVCache) 200 = Inr False
   \<and> is_supported 128 (Inr True) (Some KVCache) 256 = Inr True
   \<and> is_supported 128 (Inr True) None 256 = Inr False
   \<and> is_supported 128 (Inr True) (Some KVCache) 100 = Inr True
   \<and> kv_block_size 128 100 = 100"
  using is_supported_false_iff [of 128 "Some KVCache" 200]
    is_supported_false_iff [of 128 "Some KVCache" 256]
    is_supported_false_iff [of 128 None 256]
    is_supported_false_iff [of 128 "Some KVCache" 100]
  by simp

section \<open>Claim C7: a bias without position metadata\<close>

text \<open>
  Claim C7. When the bias has no mask component, or the mask component has no target
  positions, the forward pass raises \<open>ValueError\<close>: the result is the exception, not an
  output, and the grid is run only where an output is returned.
\<close>

theorem call_no_position_metadata:
  assumes "bias_mask ib = None \<or> (\<exists>m. bias_mask ib = Some m \<and> target_positions m = None)"
  shows "call NEG_INF cfg sw_mask mem ib = Inl ValueError"
  using assms by (auto simp: call_def)

theorem call_no_position_metadata_witness:
  "(bias_mask (ex_batch\<lparr>bias_mask := None\<rparr>) = None
    \<or> (\<exists>m. bias_mask (ex_batch\<lparr>bias_mask := None\<rparr>) = Some m \<and> target_positions m = None))
   \<and> call ex_NEG_INF ex_cfg ex_sw ex_mem (ex_batch\<lparr>bias_mask := None\<rparr>)
       = Inl ValueError"
  using call_no_position_metadata [of "ex_batch\<lparr>bias_mask := None\<rparr>" ex_NEG_INF ex_cfg ex_sw
      ex_mem]
  by simp

section \<open>Claim C9: the logit sink\<close>

text \<open>
  Claim C9 says that the decode path adds \<open>exp(sink - m)\<close> to the normaliser when the batch
  holds a logit sink. With two keys of logit 0 and values 1 and 3, and a sink of 0, the
  reference with the sink gives \<open>4 / 3\<close>; the forward pass returns 2, the average of the
  values without a sink.
\<close>

theorem call_ignores_logit_sink_counterexample:
  "logit_sink ex_batch = Some [0]
   \<and> call ex_NEG_INF ex_cfg ex_sw ex_mem ex_batch = Inr [[[[2]]]]
   \<and> reference_with_sink ex_NEG_INF 1 None 2 (b_query ex_batch 0 0) (b_key ex_batch 0 0)
        (b_value ex_batch 0 0) 0 = [[4 / 3]]"
  using ex_call ex_reference by (simp add: ex_batch_def)

text \<open>
  Claim C9, amended. The decode path does not read the logit sink: whatever the batch holds
  as \<open>logit_sink\<close>, the forward pass returns what it returns for the batch without it, the
  attention without a sink term.
\<close>

theorem call_ignores_logit_sink:
  "call NEG_INF cfg sw_mask mem (ib\<lparr>logit_sink := sink\<rparr>) = call NEG_INF cfg sw_mask mem ib"
  by (simp add: call_def pallas_call_logit_sink Let_def
        cong: option.case_cong sum.case_cong if_cong)

section \<open>Claim C10: a lane without blocks\<close>

text \<open>
  Claim C10. In a lane whose number of blocks to visit is zero, the condition of the final
  store, \<open>scan index = valid_block_count - 1\<close>, holds at no scan index \<open>j\<close>; whatever the number
  of scan steps, the output block is never stored to and keeps the contents it had before
  the call.
\<close>

theorem zero_blocks_never_written:
  assumes "kv_block_offset_size sc ! batch_index = 0"
  shows "int j \<noteq> kv_block_offset_size sc ! batch_index - 1
       \<and> o_ref (lane NEG_INF softmax_scale mask_fn batch_index sc q_ref views steps s) = o_ref s
       \<and> o_stores (lane NEG_INF softmax_scale mask_fn batch_index sc q_ref views steps s)
           = o_stores s"
  using assms lane_no_blocks [OF assms] by simp

theorem zero_blocks_never_written_witness:
  "kv_block_offset_size ex_sc0 ! 0 = 0
   \<and> int 0 \<noteq> kv_block_offset_size ex_sc0 ! 0 - 1
   \<and> o_ref (lane ex_NEG_INF 1 (Some ex_mask) 0 ex_sc0 [[1]] ex_views 1 ex_refs) = [[7]]
   \<and> o_stores (lane ex_NEG_INF 1 (Some ex_mask) 0 ex_sc0 [[1]] ex_views 1 ex_refs) = 0"
proof -
  have h: "kv_block_offset_size ex_sc0 ! 0 = 0" by (simp add: ex_sc0_eq)
  show ?thesis
    using h zero_blocks_never_written [OF h, of 0 "ex_NEG_INF" 1 "Some ex_mask" "[[1]]"
        ex_views 1 ex_refs]
    by (simp add: ex_refs_def)
qed

end
